theory Spec2Isabelle
  imports Main "HOL-Library.Word"
begin

unbundle bit_operations_syntax

section \<open>The Hyper-V socket driver, \<^verbatim>\<open>hv/af_hvsock.c\<close>\<close>

text \<open>
  A shallow embedding of the connection management and of the send and receive engine of
  \<^verbatim>\<open>af_hvsock.c\<close>. Conventions:
  \<^item> \<^verbatim>\<open>struct sock\<close> and the \<^verbatim>\<open>struct hvsock_sock\<close> that contains it are one record,
    \<open>hvsock_sock\<close>; \<^verbatim>\<open>struct socket\<close> is the record \<open>socket\<close>. Both kinds of object
    live in a store indexed by addresses; a pointer that may be \<^verbatim>\<open>NULL\<close> is an
    \<open>option\<close>, and dereferencing \<^verbatim>\<open>NULL\<close> is the value \<open>Inl NULL_DEREF\<close>.
  \<^item> The two global lists and each accept queue are lists of addresses. \<^verbatim>\<open>list_add\<close>
    puts the new entry at the head, \<^verbatim>\<open>list_add_tail\<close> at the tail, \<^verbatim>\<open>list_del_init\<close>
    unlinks the entry (a list node is linked at most once, so the entry is gone from the
    list afterwards).
  \<^item> Execution is sequential: \<^verbatim>\<open>mutex_lock\<close>, \<^verbatim>\<open>lock_sock\<close> and their releases
    do nothing in the model. What other threads do while a caller sleeps in
    \<^verbatim>\<open>schedule_timeout\<close> is an input (see \<open>sleep_result\<close>).
  \<^item> \<^verbatim>\<open>sock_hold\<close> and \<^verbatim>\<open>sock_put\<close> only decide when memory is given back; objects
    stay in the store and the reference count is not a field.
  \<^item> A function whose C name starts with two underscores has the prefix \<open>uu_\<close>.
  \<^item> The callbacks \<^verbatim>\<open>sk_state_change\<close>, \<^verbatim>\<open>sk_error_report\<close>, \<^verbatim>\<open>sk_data_ready\<close> and
    \<^verbatim>\<open>sk_write_space\<close> wake the tasks sleeping on the sock; the model logs each call in
    the field \<open>sk_wakeups\<close>.
\<close>

subsection \<open>Constants of the kernel headers\<close>

definition EINTR :: int where "EINTR = 4"
definition EIO :: int where "EIO = 5"
definition ENXIO :: int where "ENXIO = 6"
definition EAGAIN :: int where "EAGAIN = 11"
definition ENOMEM :: int where "ENOMEM = 12"
definition EFAULT :: int where "EFAULT = 14"
definition EINVAL :: int where "EINVAL = 22"
definition EMFILE :: int where "EMFILE = 24"
definition EPIPE :: int where "EPIPE = 32"
definition EDESTADDRREQ :: int where "EDESTADDRREQ = 89"
definition EOPNOTSUPP :: int where "EOPNOTSUPP = 95"
definition EADDRINUSE :: int where "EADDRINUSE = 98"
definition ENOTCONN :: int where "ENOTCONN = 107"
definition ERESTARTSYS :: int where "ERESTARTSYS = 512"

lemmas errno_defs = EINTR_def EIO_def ENXIO_def EAGAIN_def ENOMEM_def EFAULT_def EINVAL_def
  EMFILE_def EPIPE_def EDESTADDRREQ_def EOPNOTSUPP_def EADDRINUSE_def ENOTCONN_def
  ERESTARTSYS_def

definition SOCK_STREAM :: nat where "SOCK_STREAM = 1"

definition SHUT_RD :: int where "SHUT_RD = 0"
definition SHUT_WR :: int where "SHUT_WR = 1"
definition SHUT_RDWR :: int where "SHUT_RDWR = 2"

definition RCV_SHUTDOWN :: "8 word" where "RCV_SHUTDOWN = 1"
definition SEND_SHUTDOWN :: "8 word" where "SEND_SHUTDOWN = 2"
definition SHUTDOWN_MASK :: "8 word" where "SHUTDOWN_MASK = 3"

definition MSG_DONTWAIT :: "32 word" where "MSG_DONTWAIT = 0x40"
definition O_NONBLOCK :: "32 word" where "O_NONBLOCK = 0x800"

text \<open>\<^verbatim>\<open>LONG_MAX\<close> on the 64-bit kernels the driver is built for.\<close>

definition MAX_SCHEDULE_TIMEOUT :: int where "MAX_SCHEDULE_TIMEOUT = 2 ^ 63 - 1"

text \<open>
  The socket states of \<^verbatim>\<open>enum socket_state\<close>, and \<^verbatim>\<open>SS_LISTEN\<close> (255), which the driver
  adds. \<^verbatim>\<open>sock->state\<close> and \<^verbatim>\<open>sk->sk_state\<close> both hold these values.
\<close>

datatype socket_state =
  SS_FREE | SS_UNCONNECTED | SS_CONNECTING | SS_CONNECTED | SS_DISCONNECTING | SS_LISTEN

subsection \<open>Addresses\<close>

type_synonym uuid_le = "128 word"

definition NULL_UUID_LE :: uuid_le where "NULL_UUID_LE = 0"

text \<open>
  Modelled from the spec: the macro \<^verbatim>\<open>SHV_SERVICE_ID_ANY\<close> is declared in
  \<^verbatim>\<open>include/linux/af_hvsock.h\<close>; a wildcard address "uses a reserved all-zero/any service
  identifier value".
\<close>

definition SHV_SERVICE_ID_ANY :: uuid_le where "SHV_SERVICE_ID_ANY = NULL_UUID_LE"

text \<open>
  Modelled from the spec: \<^verbatim>\<open>struct sockaddr_hv\<close> (same header) holds a family tag, a
  reserved field, the 128-bit origin identifier and the 128-bit service identifier. The
  value of \<^verbatim>\<open>AF_HYPERV\<close> plays no part in any theorem.
\<close>

definition AF_HYPERV :: "16 word" where "AF_HYPERV = 43"

record sockaddr_hv =
  shv_family :: "16 word"
  reserved :: "16 word"
  shv_vm_id :: uuid_le
  shv_service_id :: uuid_le

definition uuid_equals :: "uuid_le \<Rightarrow> uuid_le \<Rightarrow> bool" where
  "uuid_equals u1 u2 = (u1 = u2)"

text \<open>\<^verbatim>\<open>hvsock_addr_init\<close>: \<^verbatim>\<open>memset\<close> to zero, then family and service identifier.\<close>

definition hvsock_addr_init :: "uuid_le \<Rightarrow> sockaddr_hv" where
  "hvsock_addr_init service_id =
     \<lparr>shv_family = AF_HYPERV, reserved = 0, shv_vm_id = 0, shv_service_id = service_id\<rparr>"

definition hvsock_addr_bound :: "sockaddr_hv \<Rightarrow> bool" where
  "hvsock_addr_bound addr = (\<not> uuid_equals (shv_service_id addr) SHV_SERVICE_ID_ANY)"

subsection \<open>Sockets, socks and the registries\<close>

type_synonym sk_ptr = nat
type_synonym socket_ptr = nat
type_synonym chan_ptr = nat

datatype fault = NULL_DEREF

datatype wake = STATE_CHANGE | ERROR_REPORT | DATA_READY | WRITE_SPACE

text \<open>\<^verbatim>\<open>struct socket\<close>: the fields the driver reads and writes.\<close>

record socket =
  state :: socket_state
  type :: nat
  sk :: "sk_ptr option"

text \<open>
  \<^verbatim>\<open>struct hvsock_sock\<close> with its \<^verbatim>\<open>struct sock\<close>. \<open>sock_done\<close> and \<open>sock_dead\<close> are the
  flags \<^verbatim>\<open>SOCK_DONE\<close> and \<^verbatim>\<open>SOCK_DEAD\<close>. The two backlog counters are
  \<^verbatim>\<open>unsigned short\<close> in the \<^verbatim>\<open>struct sock\<close> of the 3.10 kernels this tree is built
  against; \<open>sk_shutdown\<close> and \<open>peer_shutdown\<close> only ever hold the two low bits. The
  lengths of the receive cursor are \<^verbatim>\<open>unsigned int\<close>; the code subtracts from
  \<open>recv_data_len\<close> only what it has compared it with, so they are \<open>nat\<close>.
\<close>

record hvsock_sock =
  sk_state :: socket_state
  sk_socket :: "socket_ptr option"
  sk_type :: nat
  sk_err :: int
  sk_shutdown :: "8 word"
  sock_done :: bool
  sock_dead :: bool
  sk_ack_backlog :: "16 word"
  sk_max_ack_backlog :: "16 word"
  sk_sndtimeo :: int
  sk_rcvtimeo :: int
  sk_wakeups :: "wake list"
  local_addr :: sockaddr_hv
  remote_addr :: sockaddr_hv
  channel :: "chan_ptr option"
  peer_shutdown :: "8 word"
  accept_queue :: "sk_ptr list"
  send_pkt_type :: nat
  send_data_size :: nat
  send_buf :: "8 word list"
  recv_pkt_type :: nat
  recv_data_size :: nat
  recv_buf :: "8 word list"
  recv_data_len :: nat
  recv_data_offset :: nat

text \<open>
  The driver's global state: the store of socks, the store of sockets, and the two lists
  \<^verbatim>\<open>hvsock_bound_list\<close> and \<^verbatim>\<open>hvsock_connected_list\<close>.
\<close>

record hvsock_global =
  sks :: "sk_ptr \<Rightarrow> hvsock_sock"
  sockets :: "socket_ptr \<Rightarrow> socket"
  hvsock_bound_list :: "sk_ptr list"
  hvsock_connected_list :: "sk_ptr list"

definition sk_state_change :: "hvsock_sock \<Rightarrow> hvsock_sock" where
  "sk_state_change s = s\<lparr>sk_wakeups := sk_wakeups s @ [STATE_CHANGE]\<rparr>"

definition modify_sk :: "hvsock_global \<Rightarrow> sk_ptr \<Rightarrow> (hvsock_sock \<Rightarrow> hvsock_sock) \<Rightarrow> hvsock_global" where
  "modify_sk g p f = g\<lparr>sks := (sks g)(p := f (sks g p))\<rparr>"

definition uu_hvsock_insert_bound :: "hvsock_global \<Rightarrow> sk_ptr \<Rightarrow> hvsock_global" where
  "uu_hvsock_insert_bound g hvsk = g\<lparr>hvsock_bound_list := hvsk # hvsock_bound_list g\<rparr>"

definition uu_hvsock_insert_connected :: "hvsock_global \<Rightarrow> sk_ptr \<Rightarrow> hvsock_global" where
  "uu_hvsock_insert_connected g hvsk =
     g\<lparr>hvsock_connected_list := hvsk # hvsock_connected_list g\<rparr>"



text \<open>\<^verbatim>\<open>list_for_each_entry\<close> with a \<^verbatim>\<open>return\<close> at the first match.\<close>

definition uu_hvsock_find_bound_socket :: "hvsock_global \<Rightarrow> sockaddr_hv \<Rightarrow> sk_ptr option" where
  "uu_hvsock_find_bound_socket g addr =
     find (\<lambda>hvsk. uuid_equals (shv_service_id addr) (shv_service_id (local_addr (sks g hvsk))))
       (hvsock_bound_list g)"

definition uu_hvsock_find_connected_socket_by_channel ::
  "hvsock_global \<Rightarrow> chan_ptr \<Rightarrow> sk_ptr option" where
  "uu_hvsock_find_connected_socket_by_channel g chan =
     find (\<lambda>hvsk. channel (sks g hvsk) = Some chan) (hvsock_connected_list g)"



definition hvsock_insert_connected :: "hvsock_global \<Rightarrow> sk_ptr \<Rightarrow> hvsock_global" where
  "hvsock_insert_connected g hvsk = uu_hvsock_insert_connected g hvsk"

text \<open>
  Two sizes of the header file: the receive buffer \<^verbatim>\<open>hvsk->recv.buf\<close> (as large as the
  receive ring, five pages) and the packet header \<^verbatim>\<open>hvsk->recv.hdr\<close> (two 32-bit fields).
  No theorem below depends on the two values.
\<close>

definition HVSOCK_RCV_BUF_SZ :: nat where "HVSOCK_RCV_BUF_SZ = 5 * 4096"

definition sizeof_recv_hdr :: nat where "sizeof_recv_hdr = 8"

subsection \<open>Creation\<close>

text \<open>
  \<^verbatim>\<open>__hvsock_create(net, sock, priority, type)\<close>, for the case that \<^verbatim>\<open>sk_alloc\<close> returned
  memory (it is zeroed). \<^verbatim>\<open>sock_init_data(sock, sk)\<close> stores \<^verbatim>\<open>sock\<close> in
  \<^verbatim>\<open>sk->sk_socket\<close>, takes \<^verbatim>\<open>sk_type\<close> from \<^verbatim>\<open>sock\<close> when it is not \<^verbatim>\<open>NULL\<close>, and sets both
  timeouts to \<^verbatim>\<open>MAX_SCHEDULE_TIMEOUT\<close>; the driver then sets the remaining fields. The
  first argument is \<^verbatim>\<open>sock\<close>: its address and the object there. The receive buffer
  \<^verbatim>\<open>recv.buf\<close> is an array of \<^verbatim>\<open>HVSOCK_RCV_BUF_SZ\<close> bytes inside the zeroed object.
\<close>

definition uu_hvsock_create :: "(socket_ptr \<times> socket) option \<Rightarrow> nat \<Rightarrow> hvsock_sock" where
  "uu_hvsock_create sock type' =
     \<lparr>sk_state = SS_FREE,
      sk_socket = map_option fst sock,
      sk_type = (case sock of None \<Rightarrow> type' | Some (_, so) \<Rightarrow> type so),
      sk_err = 0,
      sk_shutdown = 0,
      sock_done = False,
      sock_dead = False,
      sk_ack_backlog = 0,
      sk_max_ack_backlog = 0,
      sk_sndtimeo = MAX_SCHEDULE_TIMEOUT,
      sk_rcvtimeo = MAX_SCHEDULE_TIMEOUT,
      sk_wakeups = [],
      local_addr = hvsock_addr_init SHV_SERVICE_ID_ANY,
      remote_addr = hvsock_addr_init SHV_SERVICE_ID_ANY,
      channel = None,
      peer_shutdown = 0,
      accept_queue = [],
      send_pkt_type = 0,
      send_data_size = 0,
      send_buf = [],
      recv_pkt_type = 0,
      recv_data_size = 0,
      recv_buf = replicate HVSOCK_RCV_BUF_SZ 0,
      recv_data_len = 0,
      recv_data_offset = 0\<rparr>"

subsection \<open>The accept queue\<close>

text \<open>
  \<^verbatim>\<open>hvsock_enqueue_accept\<close>: \<^verbatim>\<open>list_add_tail\<close> on the listener's queue and
  \<^verbatim>\<open>sk_ack_backlog++\<close>.
\<close>

definition hvsock_enqueue_accept :: "hvsock_global \<Rightarrow> sk_ptr \<Rightarrow> sk_ptr \<Rightarrow> hvsock_global" where
  "hvsock_enqueue_accept g listener connected =
     modify_sk g listener
       (\<lambda>l. l\<lparr>accept_queue := accept_queue l @ [connected],
              sk_ack_backlog := sk_ack_backlog l + 1\<rparr>)"

text \<open>
  \<^verbatim>\<open>hvsock_dequeue_accept\<close>: \<^verbatim>\<open>NULL\<close> on an empty queue, else the entry at
  \<^verbatim>\<open>accept_queue.next\<close> is unlinked and \<^verbatim>\<open>sk_ack_backlog--\<close>.
\<close>

definition hvsock_dequeue_accept :: "hvsock_global \<Rightarrow> sk_ptr \<Rightarrow> sk_ptr option \<times> hvsock_global" where
  "hvsock_dequeue_accept g listener =
     (case accept_queue (sks g listener) of
        [] \<Rightarrow> (None, g)
      | hvconnected # rest \<Rightarrow>
          (Some hvconnected,
           modify_sk g listener
             (\<lambda>l. l\<lparr>accept_queue := rest, sk_ack_backlog := sk_ack_backlog l - 1\<rparr>)))"

definition hvsock_is_accept_queue_empty :: "hvsock_sock \<Rightarrow> bool" where
  "hvsock_is_accept_queue_empty s = (accept_queue s = [])"

subsection \<open>Bind\<close>

text \<open>
  \<^verbatim>\<open>uuid_le_gen\<close> fills in a random identifier. The identifiers it will return, in the
  order of the calls, are the input \<open>gen\<close>. The loop
  \<^verbatim>\<open>do { uuid_le_gen(&hv_addr.shv_service_id); } while (__hvsock_find_bound_socket(&hv_addr));\<close>
  may run forever, which is the value \<open>None\<close>.
\<close>

partial_function (option) uuid_gen_until_unbound ::
  "(nat \<Rightarrow> uuid_le) \<Rightarrow> hvsock_global \<Rightarrow> sockaddr_hv \<Rightarrow> nat \<Rightarrow> sockaddr_hv option" where
  "uuid_gen_until_unbound gen g hv_addr n =
     (let hv_addr' = hv_addr\<lparr>shv_service_id := gen n\<rparr> in
      if uu_hvsock_find_bound_socket g hv_addr' \<noteq> None
      then uuid_gen_until_unbound gen g hv_addr' (Suc n)
      else Some hv_addr')"

definition hvsock_bind_commit :: "hvsock_global \<Rightarrow> sk_ptr \<Rightarrow> sockaddr_hv \<Rightarrow> hvsock_global" where
  "hvsock_bind_commit g hvsk hv_addr =
     uu_hvsock_insert_bound
       (modify_sk g hvsk (\<lambda>s. s\<lparr>local_addr := hvsock_addr_init (shv_service_id hv_addr)\<rparr>))
       hvsk"

definition uu_hvsock_do_bind ::
  "(nat \<Rightarrow> uuid_le) \<Rightarrow> hvsock_global \<Rightarrow> sk_ptr \<Rightarrow> sockaddr_hv \<Rightarrow> (int \<times> hvsock_global) option" where
  "uu_hvsock_do_bind gen g hvsk addr =
     (let hv_addr = hvsock_addr_init (shv_service_id addr) in
      if uuid_equals (shv_service_id addr) SHV_SERVICE_ID_ANY then
        (case uuid_gen_until_unbound gen g hv_addr 0 of
           None \<Rightarrow> None
         | Some hv_addr' \<Rightarrow> Some (0, hvsock_bind_commit g hvsk hv_addr'))
      else if uu_hvsock_find_bound_socket g hv_addr \<noteq> None then Some (- EADDRINUSE, g)
      else Some (0, hvsock_bind_commit g hvsk hv_addr))"

subsection \<open>Listen and shutdown\<close>


text \<open>
  \<^verbatim>\<open>hvsock_shutdown(sock, mode)\<close>, with \<open>sk\<close> the object \<^verbatim>\<open>sock->sk\<close>. \<^verbatim>\<open>++mode\<close> maps
  \<^verbatim>\<open>SHUT_RD\<close>, \<^verbatim>\<open>SHUT_WR\<close>, \<^verbatim>\<open>SHUT_RDWR\<close> to 1, 2, 3.
\<close>

definition hvsock_shutdown :: "socket \<Rightarrow> hvsock_sock \<Rightarrow> int \<Rightarrow> int \<times> socket \<times> hvsock_sock" where
  "hvsock_shutdown sock s mode =
     (if mode < SHUT_RD \<or> mode > SHUT_RDWR then (- EINVAL, sock, s)
      else
        let mode' = mode + 1 in
        if state sock = SS_UNCONNECTED then (- ENOTCONN, sock, s)
        else (0, sock\<lparr>state := SS_DISCONNECTING\<rparr>,
              sk_state_change (s\<lparr>sk_shutdown := sk_shutdown s OR word_of_int mode'\<rparr>)))"

subsection \<open>Channel events: rescission and offers\<close>

text \<open>
  \<^verbatim>\<open>hvsock_close_connection(channel)\<close>, the rescind callback. \<^verbatim>\<open>sk->sk_socket->state\<close>
  dereferences \<^verbatim>\<open>sk->sk_socket\<close>.
\<close>

definition hvsock_close_connection :: "hvsock_global \<Rightarrow> chan_ptr \<Rightarrow> fault + hvsock_global" where
  "hvsock_close_connection g chan =
     (case uu_hvsock_find_connected_socket_by_channel g chan of
        None \<Rightarrow> Inr g
      | Some p \<Rightarrow>
          (case sk_socket (sks g p) of
             None \<Rightarrow> Inl NULL_DEREF
           | Some so \<Rightarrow>
               let g1 = g\<lparr>sockets := (sockets g)(so := (sockets g so)\<lparr>state := SS_UNCONNECTED\<rparr>)\<rparr>;
                   g2 = modify_sk g1 p (\<lambda>s. s\<lparr>sk_state := SS_UNCONNECTED\<rparr>);
                   g3 = modify_sk g2 p (\<lambda>s. s\<lparr>sock_done := True\<rparr>);
                   g4 = modify_sk g3 p
                          (\<lambda>s. s\<lparr>peer_shutdown := peer_shutdown s OR (SEND_SHUTDOWN OR RCV_SHUTDOWN)\<rparr>);
                   g5 = modify_sk g4 p sk_state_change
               in Inr g5))"

text \<open>
  A channel offer: the address of the channel object and the two identifiers of
  \<^verbatim>\<open>channel->offermsg.offer\<close>.
\<close>

record vmbus_channel =
  chan :: chan_ptr
  if_instance :: uuid_le
  if_type :: uuid_le

text \<open>
  \<^verbatim>\<open>hvsock_open_connection(channel)\<close>. Two answers of the environment are inputs: the
  return value of \<^verbatim>\<open>vmbus_open\<close>, and the address \<^verbatim>\<open>sk_alloc\<close> returns inside
  \<^verbatim>\<open>__hvsock_create\<close> (\<open>None\<close> for \<^verbatim>\<open>NULL\<close>). The calls that only configure the channel
  object (\<^verbatim>\<open>set_channel_read_mode\<close>, \<^verbatim>\<open>vmbus_set_chn_rescind_callback\<close>,
  \<^verbatim>\<open>set_channel_pending_send_size\<close>) change nothing in the driver's state. When
  \<^verbatim>\<open>vmbus_open\<close> fails for a new sock, \<^verbatim>\<open>sock_put(new_sk)\<close> gives its memory back, so
  the store is as before.
\<close>

definition hvsock_open_connection ::
  "hvsock_global \<Rightarrow> vmbus_channel \<Rightarrow> int \<Rightarrow> sk_ptr option \<Rightarrow> fault + (int \<times> hvsock_global)" where
  "hvsock_open_connection g channel' vmbus_open_ret sk_alloc_ret =
     (let instance' = if_instance channel';
          service_id = if_type channel';
          hv_addr = hvsock_addr_init instance'
      in case uu_hvsock_find_bound_socket g hv_addr of
           Some p \<Rightarrow>
             if sk_state (sks g p) \<noteq> SS_CONNECTING then Inr (- ENXIO, g)
             else
               let g1 = modify_sk g p (\<lambda>s. s\<lparr>channel := Some (chan channel')\<rparr>) in
               if vmbus_open_ret \<noteq> 0
               then Inr (vmbus_open_ret, modify_sk g1 p (\<lambda>s. s\<lparr>channel := None\<rparr>))
               else
                 let g2 = modify_sk g1 p (\<lambda>s. s\<lparr>sk_state := SS_CONNECTED\<rparr>) in
                 (case sk_socket (sks g2 p) of
                    None \<Rightarrow> Inl NULL_DEREF
                  | Some so \<Rightarrow>
                      let g3 = g2\<lparr>sockets := (sockets g2)(so := (sockets g2 so)\<lparr>state := SS_CONNECTED\<rparr>)\<rparr>;
                          g4 = hvsock_insert_connected g3 p;
                          g5 = modify_sk g4 p sk_state_change
                      in Inr (0, g5))
         | None \<Rightarrow>
             let hv_addr = hvsock_addr_init service_id in
             (case uu_hvsock_find_bound_socket g hv_addr of
                None \<Rightarrow> Inr (- ENXIO, g)
              | Some p \<Rightarrow>
                  if sk_state (sks g p) \<noteq> SS_LISTEN then Inr (- ENXIO, g)
                  else if sk_ack_backlog (sks g p) \<ge> sk_max_ack_backlog (sks g p)
                  then Inr (- EMFILE, g)
                  else
                    (case sk_alloc_ret of
                       None \<Rightarrow> Inr (- ENOMEM, g)
                     | Some new_sk \<Rightarrow>
                         let new_hvsk = (uu_hvsock_create None (sk_type (sks g p)))
                               \<lparr>sk_state := SS_CONNECTING,
                                local_addr := hvsock_addr_init service_id,
                                remote_addr := hvsock_addr_init instance',
                                channel := Some (chan channel')\<rparr>
                         in if vmbus_open_ret \<noteq> 0 then Inr (vmbus_open_ret, g)
                            else
                              let g1 = g\<lparr>sks := (sks g)(new_sk := new_hvsk\<lparr>sk_state := SS_CONNECTED\<rparr>)\<rparr>;
                                  g2 = hvsock_insert_connected g1 new_sk;
                                  g3 = hvsock_enqueue_accept g2 p new_sk;
                                  g4 = modify_sk g3 p sk_state_change
                              in Inr (0, g4))))"

subsection \<open>Release\<close>



subsection \<open>Sleeping\<close>

text \<open>
  One call of \<^verbatim>\<open>schedule_timeout\<close> between \<^verbatim>\<open>release_sock\<close> and \<^verbatim>\<open>lock_sock\<close>: how many
  jiffies pass, whether a signal is pending for the caller afterwards, and what the other
  threads have done meanwhile to the sock (\<open>concurrent\<close>) and to the global state
  (\<open>concurrent_global\<close>).
\<close>

record sleep_result =
  elapsed :: nat
  signal_pending :: bool
  concurrent :: "hvsock_sock \<Rightarrow> hvsock_sock"
  concurrent_global :: "hvsock_global \<Rightarrow> hvsock_global"

text \<open>
  The kernel's \<^verbatim>\<open>schedule_timeout\<close>: \<^verbatim>\<open>MAX_SCHEDULE_TIMEOUT\<close> comes back as it is, any
  other timeout comes back as the jiffies that remain, never below 0.
\<close>

definition schedule_timeout :: "int \<Rightarrow> nat \<Rightarrow> int" where
  "schedule_timeout timeout e =
     (if timeout = MAX_SCHEDULE_TIMEOUT then MAX_SCHEDULE_TIMEOUT else max 0 (timeout - int e))"

definition sock_intr_errno :: "int \<Rightarrow> int" where
  "sock_intr_errno timeo = (if timeo = MAX_SCHEDULE_TIMEOUT then - ERESTARTSYS else - EINTR)"

definition sock_sndtimeo :: "hvsock_sock \<Rightarrow> bool \<Rightarrow> int" where
  "sock_sndtimeo s noblock = (if noblock then 0 else sk_sndtimeo s)"

definition sock_rcvtimeo :: "hvsock_sock \<Rightarrow> bool \<Rightarrow> int" where
  "sock_rcvtimeo s noblock = (if noblock then 0 else sk_rcvtimeo s)"

subsection \<open>Accept\<close>

text \<open>
  \<^verbatim>\<open>sock_graft(sk, parent)\<close> ties the sock and the new socket to each other.
\<close>

definition sock_graft :: "hvsock_global \<Rightarrow> sk_ptr \<Rightarrow> socket_ptr \<Rightarrow> hvsock_global" where
  "sock_graft g p parent =
     (modify_sk g p (\<lambda>s. s\<lparr>sk_socket := Some parent\<rparr>))
       \<lparr>sockets := (sockets g)(parent := (sockets g parent)\<lparr>sk := Some p\<rparr>)\<rparr>"

text \<open>
  How the wait loop of \<^verbatim>\<open>hvsock_accept\<close> ends: by \<^verbatim>\<open>goto out_wait\<close> with a return
  value, or because its condition is false, with the value of \<^verbatim>\<open>connected\<close>.
\<close>

datatype accept_exit =
  Accept_out_wait int hvsock_global
| Accept_done "sk_ptr option" hvsock_global

text \<open>
  The loop
  \<^verbatim>\<open>while ((connected = hvsock_dequeue_accept(listener)) == NULL && listener->sk_err == 0)\<close>.
  \<open>slp k\<close> is what the \<open>k\<close>-th sleep brings. A caller that is never woken sleeps
  forever: \<open>None\<close>.
\<close>

partial_function (option) accept_wait ::
  "(nat \<Rightarrow> sleep_result) \<Rightarrow> hvsock_global \<Rightarrow> sk_ptr \<Rightarrow> int \<Rightarrow> nat \<Rightarrow> accept_exit option" where
  "accept_wait slp g listener timeout k =
     (case hvsock_dequeue_accept g listener of
        (connected, g1) \<Rightarrow>
          if connected = None \<and> sk_err (sks g1 listener) = 0 then
            let g2 = concurrent_global (slp k) g1;
                timeout' = schedule_timeout timeout (elapsed (slp k))
            in if signal_pending (slp k) then Some (Accept_out_wait (sock_intr_errno timeout') g2)
               else if timeout' = 0 then Some (Accept_out_wait (- EAGAIN) g2)
               else accept_wait slp g2 listener timeout' (Suc k)
          else Some (Accept_done connected g1))"

text \<open>\<^verbatim>\<open>hvsock_accept(sock, newsock, flags)\<close>; \<open>listener\<close> is \<^verbatim>\<open>sock->sk\<close>.\<close>

definition hvsock_accept ::
  "(nat \<Rightarrow> sleep_result) \<Rightarrow> hvsock_global \<Rightarrow> socket_ptr \<Rightarrow> socket_ptr \<Rightarrow> 32 word
     \<Rightarrow> (fault + int \<times> hvsock_global) option" where
  "hvsock_accept slp g sock newsock flags =
     (case sk (sockets g sock) of
        None \<Rightarrow> Some (Inl NULL_DEREF)
      | Some listener \<Rightarrow>
          if type (sockets g sock) \<noteq> SOCK_STREAM then Some (Inr (- EOPNOTSUPP, g))
          else if sk_state (sks g listener) \<noteq> SS_LISTEN then Some (Inr (- EINVAL, g))
          else
            let timeout = sock_sndtimeo (sks g listener) (flags AND O_NONBLOCK \<noteq> 0) in
            (case accept_wait slp g listener timeout 0 of
               None \<Rightarrow> None
             | Some (Accept_out_wait r g') \<Rightarrow> Some (Inr (r, g'))
             | Some (Accept_done connected g') \<Rightarrow>
                 let r = (if sk_err (sks g' listener) \<noteq> 0 then - sk_err (sks g' listener) else 0) in
                 (case connected of
                    None \<Rightarrow> Some (Inr (r, g'))
                  | Some c \<Rightarrow>
                      if r \<noteq> 0 then Some (Inr (r, g'))
                      else
                        let g1 = g'\<lparr>sockets :=
                                   (sockets g')(newsock := (sockets g' newsock)\<lparr>state := SS_CONNECTED\<rparr>)\<rparr>
                        in Some (Inr (r, sock_graft g1 c newsock)))))"

subsection \<open>Send\<close>

text \<open>
  Modelled from the spec: \<^verbatim>\<open>HVSOCK_SND_BUF_SZ\<close> is declared in the header; the send
  scratch area holds "one maximum-packet payload (a fixed cap, one page)", 4096 bytes.
\<close>

definition HVSOCK_SND_BUF_SZ :: nat where "HVSOCK_SND_BUF_SZ = 4096"

text \<open>\<^verbatim>\<open>struct msghdr\<close>: flags, length of the destination name, and the bytes to send.\<close>

record msghdr =
  msg_flags :: "32 word"
  msg_namelen :: int
  msg_iov :: "8 word list"

text \<open>What \<^verbatim>\<open>vmbus_sendpacket\<close> is handed: the header and the payload after it.\<close>

record packet =
  pkt_type :: nat
  data_size :: nat
  payload :: "8 word list"

text \<open>
  The answers of the environment during one \<^verbatim>\<open>hvsock_sendmsg\<close>: whether the outbound ring
  has room at the \<open>k\<close>-th call of \<^verbatim>\<open>get_ringbuffer_rw_status\<close>, what the \<open>k\<close>-th sleep
  brings, and the return values of the \<open>j\<close>-th \<^verbatim>\<open>memcpy_from_msg\<close> and
  \<^verbatim>\<open>vmbus_sendpacket\<close>.
\<close>

record send_env =
  can_write_at :: "nat \<Rightarrow> bool"
  send_sleep_at :: "nat \<Rightarrow> sleep_result"
  memcpy_from_msg_ret :: "nat \<Rightarrow> int"
  vmbus_sendpacket_ret :: "nat \<Rightarrow> int"

text \<open>
  The local variables of \<^verbatim>\<open>hvsock_sendmsg\<close> and \<^verbatim>\<open>hvsock_recvmsg\<close>, with the sock
  \<open>hvsk\<close> they work on and the counters of the calls made to the environment. \<open>sent\<close> are
  the packets handed to the channel, \<open>delivered\<close> the bytes copied to the caller's buffer,
  \<open>pulled\<close> the number of calls of \<^verbatim>\<open>vmbus_recvpacket\<close>.
\<close>

record io_locals =
  ret :: int
  timeout :: int
  hvsk :: hvsock_sock
  polls :: nat
  sleeps :: nat

record send_locals = io_locals +
  total_to_write :: nat
  total_written :: nat
  chunks :: nat
  sent :: "packet list"

text \<open>An assignment of a \<^verbatim>\<open>size_t\<close> to an \<^verbatim>\<open>int\<close> keeps the low 32 bits, signed.\<close>

definition int_of_size_t :: "nat \<Rightarrow> int" where
  "int_of_size_t n = sint (word_of_nat n :: 32 word)"

text \<open>
  The inner \<^verbatim>\<open>while (1)\<close> of \<^verbatim>\<open>hvsock_sendmsg\<close>: \<open>Inr\<close> is \<^verbatim>\<open>break\<close>, \<open>Inl\<close> is
  \<^verbatim>\<open>goto out_wait\<close>, \<open>None\<close> is a caller that sleeps forever.
\<close>

partial_function (option) send_wait ::
  "send_env \<Rightarrow> send_locals \<Rightarrow> (send_locals + send_locals) option" where
  "send_wait env v =
     (let can_write = can_write_at env (polls v);
          v1 = v\<lparr>polls := Suc (polls v)\<rparr>
      in if can_write \<or> sk_err (hvsk v1) \<noteq> 0 \<or>
            sk_shutdown (hvsk v1) AND SEND_SHUTDOWN \<noteq> 0 \<or>
            peer_shutdown (hvsk v1) AND RCV_SHUTDOWN \<noteq> 0
         then Some (Inr v1)
         else if timeout v1 = 0 then Some (Inl (v1\<lparr>ret := - EAGAIN\<rparr>))
         else
           let sl = send_sleep_at env (sleeps v1);
               v2 = v1\<lparr>timeout := schedule_timeout (timeout v1) (elapsed sl),
                       hvsk := concurrent sl (hvsk v1),
                       sleeps := Suc (sleeps v1)\<rparr>
           in if signal_pending sl then Some (Inl (v2\<lparr>ret := sock_intr_errno (timeout v2)\<rparr>))
              else if timeout v2 = 0 then Some (Inl (v2\<lparr>ret := - EAGAIN\<rparr>))
              else send_wait env v2)"

text \<open>
  \<^verbatim>\<open>hvsock_send_data\<close> fills in the header of the scratch area and hands header and
  payload to \<^verbatim>\<open>vmbus_sendpacket\<close>, whose return value is \<open>r\<close>.
\<close>

definition hvsock_send_data :: "int \<Rightarrow> hvsock_sock \<Rightarrow> nat \<Rightarrow> int \<times> hvsock_sock \<times> packet" where
  "hvsock_send_data r s to_write =
     (let s1 = s\<lparr>send_pkt_type := 1, send_data_size := to_write\<rparr>
      in (r, s1, \<lparr>pkt_type = send_pkt_type s1, data_size = send_data_size s1,
                  payload = send_buf s1\<rparr>))"

text \<open>
  The \<^verbatim>\<open>do { ... } while (total_to_write > 0)\<close> of \<^verbatim>\<open>hvsock_sendmsg\<close>: \<open>Inl\<close> is
  \<^verbatim>\<open>goto out_wait\<close>, \<open>Inr\<close> the end of the loop. \<^verbatim>\<open>memcpy_from_msg\<close> takes the next
  \<open>to_write\<close> bytes of the message.
\<close>

function send_chunks :: "send_env \<Rightarrow> msghdr \<Rightarrow> send_locals \<Rightarrow> send_locals + send_locals" where
  "send_chunks env msg v =
     (let to_write = min HVSOCK_SND_BUF_SZ (total_to_write v);
          j = chunks v;
          v1 = v\<lparr>chunks := Suc j, ret := memcpy_from_msg_ret env j\<rparr>
      in if ret v1 \<noteq> 0 then Inl v1
         else
           let s1 = (hvsk v1)\<lparr>send_buf := take to_write (drop (total_written v1) (msg_iov msg))\<rparr>
           in (case hvsock_send_data (vmbus_sendpacket_ret env j) s1 to_write of
                 (r, s2, pkt) \<Rightarrow>
                   let v2 = v1\<lparr>ret := r, hvsk := s2\<rparr>
                   in if ret v2 \<noteq> 0 then Inl v2
                      else
                        let v3 = v2\<lparr>sent := sent v2 @ [pkt],
                                    total_written := total_written v2 + to_write,
                                    total_to_write := total_to_write v2 - to_write\<rparr>
                        in if total_to_write v3 > 0 then send_chunks env msg v3 else Inr v3))"
  by pat_completeness auto
termination
  by (relation "measure (\<lambda>(env, msg, v). total_to_write v)")
    (auto simp: HVSOCK_SND_BUF_SZ_def hvsock_send_data_def Let_def)

declare send_chunks.simps [simp del]

text \<open>The outer \<^verbatim>\<open>while (total_to_write > 0)\<close>; its result are the variables at \<^verbatim>\<open>out_wait\<close>.\<close>

partial_function (option) send_loop :: "send_env \<Rightarrow> msghdr \<Rightarrow> send_locals \<Rightarrow> send_locals option" where
  "send_loop env msg v =
     (if total_to_write v > 0 then
        (case send_wait env v of
           None \<Rightarrow> None
         | Some (Inl v1) \<Rightarrow> Some v1
         | Some (Inr v1) \<Rightarrow>
             if sk_err (hvsk v1) \<noteq> 0 then Some (v1\<lparr>ret := - sk_err (hvsk v1)\<rparr>)
             else if sk_shutdown (hvsk v1) AND SEND_SHUTDOWN \<noteq> 0 \<or>
                     peer_shutdown (hvsk v1) AND RCV_SHUTDOWN \<noteq> 0
             then Some (v1\<lparr>ret := - EPIPE\<rparr>)
             else
               (case send_chunks env msg v1 of
                  Inl v2 \<Rightarrow> Some v2
                | Inr v2 \<Rightarrow> send_loop env msg v2))
      else Some v)"

text \<open>The labels \<^verbatim>\<open>out_wait\<close> and \<^verbatim>\<open>out\<close> of \<^verbatim>\<open>hvsock_sendmsg\<close>.\<close>

definition send_out_wait :: "send_locals \<Rightarrow> send_locals" where
  "send_out_wait v = (if total_written v > 0 then v\<lparr>ret := int_of_size_t (total_written v)\<rparr> else v)"

definition send_out :: "send_locals \<Rightarrow> send_locals" where
  "send_out v = (if ret v = 0 then v\<lparr>ret := - EIO\<rparr> else v)"

text \<open>
  \<^verbatim>\<open>hvsock_sendmsg(iocb, sock, msg, len)\<close> on \<open>s\<close>, the object \<^verbatim>\<open>sock->sk\<close>. The result are
  the local variables at the \<^verbatim>\<open>return\<close>: \<open>ret\<close> is the value returned.
\<close>

definition hvsock_sendmsg :: "send_env \<Rightarrow> hvsock_sock \<Rightarrow> msghdr \<Rightarrow> nat \<Rightarrow> send_locals option" where
  "hvsock_sendmsg env s msg len =
     (let v = \<lparr>ret = 0, timeout = 0, hvsk = s, polls = 0, sleeps = 0,
               total_to_write = len, total_written = 0, chunks = 0, sent = []\<rparr>
      in if len = 0 then Some (v\<lparr>ret := - EINVAL\<rparr>)
         else if msg_flags msg AND NOT MSG_DONTWAIT \<noteq> 0 then Some (v\<lparr>ret := - EOPNOTSUPP\<rparr>)
         else
           map_option send_out
             (if msg_namelen msg \<noteq> 0 then Some (v\<lparr>ret := - EOPNOTSUPP\<rparr>)
              else if sk_shutdown s AND SEND_SHUTDOWN \<noteq> 0 \<or> peer_shutdown s AND RCV_SHUTDOWN \<noteq> 0
              then Some (v\<lparr>ret := - EPIPE\<rparr>)
              else if sk_state s \<noteq> SS_CONNECTED \<or> \<not> hvsock_addr_bound (local_addr s)
              then Some (v\<lparr>ret := - ENOTCONN\<rparr>)
              else if \<not> hvsock_addr_bound (remote_addr s) then Some (v\<lparr>ret := - EDESTADDRREQ\<rparr>)
              else
                map_option send_out_wait
                  (send_loop env msg
                     (v\<lparr>timeout := sock_sndtimeo s (msg_flags msg AND MSG_DONTWAIT \<noteq> 0)\<rparr>))))"

subsection \<open>Receive\<close>

text \<open>
  What one call of \<^verbatim>\<open>vmbus_recvpacket\<close> brings: its return value, the length it reports
  in \<^verbatim>\<open>buffer_actual_len\<close>, and the header and the payload it has put into \<^verbatim>\<open>hvsk->recv\<close>.
\<close>

record recvpacket_result =
  rp_ret :: int
  rp_actual_len :: nat
  rp_pkt_type :: nat
  rp_data_size :: nat
  rp_payload :: "8 word list"

text \<open>
  The answers of the environment during one \<^verbatim>\<open>hvsock_recvmsg\<close>, each numbered by the calls
  of its kind: is the inbound ring readable, what does \<^verbatim>\<open>vmbus_recvpacket\<close> bring, what
  does \<^verbatim>\<open>memcpy_to_msg\<close> return, what does a sleep bring.
\<close>

record recv_env =
  can_read_at :: "nat \<Rightarrow> bool"
  vmbus_recvpacket_at :: "nat \<Rightarrow> recvpacket_result"
  memcpy_to_msg_ret :: "nat \<Rightarrow> int"
  recv_sleep_at :: "nat \<Rightarrow> sleep_result"

record recv_locals = io_locals +
  total_to_read :: nat
  copied :: nat
  pulled :: nat
  copies :: nat
  delivered :: "8 word list"

text \<open>
  \<^verbatim>\<open>hvsock_recv_data\<close>: \<^verbatim>\<open>vmbus_recvpacket\<close> writes the header and, over the first bytes of
  \<^verbatim>\<open>recv.buf\<close>, the payload it received; the bytes of the buffer after them stay as they
  were. The length handed back is the \<^verbatim>\<open>data_size\<close> field of the header, whatever number
  of bytes was received.
\<close>

definition hvsock_recv_data :: "recvpacket_result \<Rightarrow> hvsock_sock \<Rightarrow> int \<times> hvsock_sock \<times> nat" where
  "hvsock_recv_data rp s =
     (let s1 = s\<lparr>recv_pkt_type := rp_pkt_type rp, recv_data_size := rp_data_size rp,
                 recv_buf := take (length (recv_buf s)) (rp_payload rp) @
                             drop (length (rp_payload rp)) (recv_buf s)\<rparr>
      in (rp_ret rp, s1,
          if rp_ret rp \<noteq> 0 \<or> rp_actual_len rp \<le> sizeof_recv_hdr then 0 else recv_data_size s1))"

text \<open>
  The \<^verbatim>\<open>if (need_refill)\<close> block of the receive loop: \<open>Inl\<close> is \<^verbatim>\<open>goto out_wait\<close>.
\<close>

definition recv_refill :: "recv_env \<Rightarrow> recv_locals \<Rightarrow> recv_locals + recv_locals" where
  "recv_refill env v =
     (case hvsock_recv_data (vmbus_recvpacket_at env (pulled v)) (hvsk v) of
        (r, s1, payload_len) \<Rightarrow>
          let v1 = v\<lparr>ret := r, hvsk := s1, pulled := Suc (pulled v)\<rparr>
          in if ret v1 \<noteq> 0 \<or> payload_len = 0 \<or> payload_len > HVSOCK_RCV_BUF_SZ
             then Inl (v1\<lparr>ret := - EIO\<rparr>)
             else Inr (v1\<lparr>hvsk := (hvsk v1)\<lparr>recv_data_len := payload_len, recv_data_offset := 0\<rparr>\<rparr>))"

text \<open>
  The \<^verbatim>\<open>while (1)\<close> of \<^verbatim>\<open>hvsock_recvmsg\<close>: \<open>Inr\<close> is \<^verbatim>\<open>break\<close>, \<open>Inl\<close> is
  \<^verbatim>\<open>goto out_wait\<close>, \<open>None\<close> a caller that sleeps forever.
\<close>

partial_function (option) recv_loop ::
  "recv_env \<Rightarrow> recv_locals \<Rightarrow> (recv_locals + recv_locals) option" where
  "recv_loop env v =
     (let need_refill = (recv_data_len (hvsk v) = 0);
          can_read = (if need_refill then can_read_at env (polls v) else True);
          v0 = (if need_refill then v\<lparr>polls := Suc (polls v)\<rparr> else v)
      in if can_read then
           (case (if need_refill then recv_refill env v0 else Inr v0) of
              Inl v1 \<Rightarrow> Some (Inl v1)
            | Inr v1 \<Rightarrow>
                let v2 = v1\<lparr>ret := memcpy_to_msg_ret env (copies v1), copies := Suc (copies v1)\<rparr>
                in if recv_data_len (hvsk v1) \<le> total_to_read v1 then
                     if ret v2 \<noteq> 0 then Some (Inr v2)
                     else
                       let n = recv_data_len (hvsk v2);
                           v3 = v2\<lparr>delivered := delivered v2 @
                                       take n (drop (recv_data_offset (hvsk v2)) (recv_buf (hvsk v2))),
                                   copied := copied v2 + n,
                                   total_to_read := total_to_read v2 - n,
                                   hvsk := (hvsk v2)\<lparr>recv_data_len := 0, recv_data_offset := 0\<rparr>\<rparr>
                       in if total_to_read v3 = 0 then Some (Inr v3) else recv_loop env v3
                   else
                     if ret v2 \<noteq> 0 then Some (Inr v2)
                     else
                       let n = total_to_read v2
                       in Some (Inr (v2\<lparr>delivered := delivered v2 @
                                         take n (drop (recv_data_offset (hvsk v2)) (recv_buf (hvsk v2))),
                                       copied := copied v2 + n,
                                       hvsk := (hvsk v2)\<lparr>recv_data_len := recv_data_len (hvsk v2) - n,
                                                       recv_data_offset := recv_data_offset (hvsk v2) + n\<rparr>,
                                       total_to_read := 0\<rparr>)))
         else if sk_err (hvsk v0) \<noteq> 0 \<or> sk_shutdown (hvsk v0) AND RCV_SHUTDOWN \<noteq> 0 \<or>
                 peer_shutdown (hvsk v0) AND SEND_SHUTDOWN \<noteq> 0
         then Some (Inr v0)
         else if timeout v0 = 0 then Some (Inr (v0\<lparr>ret := - EAGAIN\<rparr>))
         else if copied v0 > 0 then Some (Inr v0)
         else
           let sl = recv_sleep_at env (sleeps v0);
               v1 = v0\<lparr>timeout := schedule_timeout (timeout v0) (elapsed sl),
                       hvsk := concurrent sl (hvsk v0),
                       sleeps := Suc (sleeps v0)\<rparr>
           in if signal_pending sl then Some (Inr (v1\<lparr>ret := sock_intr_errno (timeout v1)\<rparr>))
              else if timeout v1 = 0 then Some (Inr (v1\<lparr>ret := - EAGAIN\<rparr>))
              else recv_loop env v1)"

text \<open>The statements between the loop and the label \<^verbatim>\<open>out_wait\<close>.\<close>

definition recv_after_loop :: "recv_env \<Rightarrow> recv_locals \<Rightarrow> recv_locals" where
  "recv_after_loop env v =
     (let v1 = (if sk_err (hvsk v) \<noteq> 0 then v\<lparr>ret := - sk_err (hvsk v)\<rparr>
                else if sk_shutdown (hvsk v) AND RCV_SHUTDOWN \<noteq> 0 then v\<lparr>ret := 0\<rparr>
                else v)
      in if copied v1 > 0 then
           let v2 = v1\<lparr>ret := int_of_size_t (copied v1)\<rparr>
           in if peer_shutdown (hvsk v2) AND SEND_SHUTDOWN \<noteq> 0 \<and> recv_data_len (hvsk v2) = 0 then
                let can_read = can_read_at env (polls v2);
                    v3 = v2\<lparr>polls := Suc (polls v2)\<rparr>
                in if \<not> can_read
                   then v3\<lparr>hvsk := sk_state_change
                                     ((hvsk v3)\<lparr>sk_state := SS_UNCONNECTED, sock_done := True\<rparr>)\<rparr>
                   else v3
              else v2
         else v1)"

text \<open>
  \<^verbatim>\<open>hvsock_recvmsg(iocb, sock, msg, len, flags)\<close> on \<open>s\<close>, the object \<^verbatim>\<open>sock->sk\<close>. The
  result are the local variables at the \<^verbatim>\<open>return\<close>.
\<close>

definition hvsock_recvmsg :: "recv_env \<Rightarrow> hvsock_sock \<Rightarrow> nat \<Rightarrow> 32 word \<Rightarrow> recv_locals option" where
  "hvsock_recvmsg env s len flags =
     (let v = \<lparr>ret = 0, timeout = 0, hvsk = s, polls = 0, sleeps = 0,
               total_to_read = len, copied = 0, pulled = 0, copies = 0, delivered = []\<rparr>
      in if sk_state s \<noteq> SS_CONNECTED
         then Some (v\<lparr>ret := (if sock_done s then 0 else - ENOTCONN)\<rparr>)
         else if flags AND NOT MSG_DONTWAIT \<noteq> 0 then Some (v\<lparr>ret := - EOPNOTSUPP\<rparr>)
         else if sk_shutdown s AND RCV_SHUTDOWN \<noteq> 0 then Some (v\<lparr>ret := 0\<rparr>)
         else if len = 0 then Some (v\<lparr>ret := 0\<rparr>)
         else
           (case recv_loop env (v\<lparr>timeout := sock_rcvtimeo s (flags AND MSG_DONTWAIT \<noteq> 0)\<rparr>) of
              None \<Rightarrow> None
            | Some (Inl v1) \<Rightarrow> Some v1
            | Some (Inr v1) \<Rightarrow> Some (recv_after_loop env v1)))"

section \<open>Notions of the specification\<close>

text \<open>The service identifiers held by the endpoints of the bound registry, in list order.\<close>

definition bound_ids :: "hvsock_global \<Rightarrow> uuid_le list" where
  "bound_ids g = map (\<lambda>p. shv_service_id (local_addr (sks g p))) (hvsock_bound_list g)"

text \<open>
  The mapping in the comment of \<^verbatim>\<open>hvsock_shutdown\<close>: \<^verbatim>\<open>SHUT_RD\<close> to \<^verbatim>\<open>RCV_SHUTDOWN\<close>,
  \<^verbatim>\<open>SHUT_WR\<close> to \<^verbatim>\<open>SEND_SHUTDOWN\<close>, \<^verbatim>\<open>SHUT_RDWR\<close> to \<^verbatim>\<open>SHUTDOWN_MASK\<close>.
\<close>

definition shut_bits :: "int \<Rightarrow> 8 word" where
  "shut_bits mode = (if mode = SHUT_RD then RCV_SHUTDOWN else if mode = SHUT_WR then SEND_SHUTDOWN else SHUTDOWN_MASK)"


subsection \<open>Example states\<close>

text \<open>
  A stream socket in state \<^verbatim>\<open>SS_UNCONNECTED\<close>, the sock \<^verbatim>\<open>__hvsock_create\<close> makes for it,
  the same sock bound to an identifier, and a global state whose bound registry holds the
  sock at address 0, bound to identifier 5. \<open>ex_gen\<close> is a generator whose first
  identifier is in use there.
\<close>

definition ex_socket :: socket where
  "ex_socket = \<lparr>state = SS_UNCONNECTED, type = SOCK_STREAM, sk = Some 0\<rparr>"

definition ex_sock :: hvsock_sock where
  "ex_sock = uu_hvsock_create (Some (0, ex_socket)) 0"

definition ex_bound_sock :: "uuid_le \<Rightarrow> hvsock_sock" where
  "ex_bound_sock u = ex_sock\<lparr>local_addr := hvsock_addr_init u\<rparr>"

definition ex_global :: hvsock_global where
  "ex_global = \<lparr>sks = (\<lambda>p. if p = 0 then ex_bound_sock 5 else ex_sock),
                 sockets = (\<lambda>p. ex_socket),
                 hvsock_bound_list = [0],
                 hvsock_connected_list = []\<rparr>"

definition ex_gen :: "nat \<Rightarrow> uuid_le" where
  "ex_gen n = 5 + of_nat n"

text \<open>
  A listener at address 10, bound to identifier 5, with a backlog limit of 2 and its socket
  at address 20; an offer from origin 7 for service 5 on the channel at address 9; a sock
  at address 10 bound to identifier 7 as \<^verbatim>\<open>hvsock_connect\<close> leaves it, in state
  \<^verbatim>\<open>SS_CONNECTING\<close>; and the listener beside a sock that is bound to the origin identifier 7
  without connecting.
\<close>

definition ex_listener :: hvsock_sock where
  "ex_listener = (ex_bound_sock 5)\<lparr>sk_socket := Some 20, sk_state := SS_LISTEN, sk_max_ack_backlog := 2\<rparr>"

definition ex_sockets :: "socket_ptr \<Rightarrow> socket" where
  "ex_sockets q = (if q = 20 then ex_socket\<lparr>sk := Some 10\<rparr> else ex_socket\<lparr>sk := None\<rparr>)"

definition ex_listen_global :: hvsock_global where
  "ex_listen_global =
     \<lparr>sks = (\<lambda>p. if p = 10 then ex_listener else uu_hvsock_create None SOCK_STREAM),
      sockets = ex_sockets,
      hvsock_bound_list = [10],
      hvsock_connected_list = []\<rparr>"

definition ex_offer :: vmbus_channel where
  "ex_offer = \<lparr>chan = 9, if_instance = 7, if_type = 5\<rparr>"


definition ex_origin_bound_global :: hvsock_global where
  "ex_origin_bound_global =
     \<lparr>sks = (\<lambda>p. if p = 10 then ex_listener
                  else if p = 12 then ex_bound_sock 7
                  else uu_hvsock_create None SOCK_STREAM),
      sockets = ex_sockets,
      hvsock_bound_list = [12, 10],
      hvsock_connected_list = []\<rparr>"

text \<open>
  The sock \<^verbatim>\<open>hvsock_open_connection\<close> derives from the listener for \<open>ex_offer\<close>, and the
  global state once it is queued at address 11.
\<close>

definition ex_child :: hvsock_sock where
  "ex_child = (uu_hvsock_create None SOCK_STREAM)
       \<lparr>local_addr := hvsock_addr_init 5, remote_addr := hvsock_addr_init 7,
        channel := Some 9, sk_state := SS_CONNECTED\<rparr>"

definition ex_queued_global :: hvsock_global where
  "ex_queued_global =
     ex_listen_global
       \<lparr>hvsock_connected_list := [11],
        sks := (sks ex_listen_global)
                 (11 := ex_child,
                  10 := ex_listener
                         \<lparr>accept_queue := [11], sk_ack_backlog := 1, sk_wakeups := [STATE_CHANGE]\<rparr>)\<rparr>"


text \<open>The listener with its accept queue counted as full.\<close>

definition ex_full_global :: hvsock_global where
  "ex_full_global =
     ex_listen_global\<lparr>sks := (sks ex_listen_global)(10 := ex_listener\<lparr>sk_ack_backlog := 2\<rparr>)\<rparr>"


text \<open>
  For the order of the accept queue: \<open>enqueue_all\<close> queues the socks of a list one after
  the other, \<open>dequeue_n\<close> calls \<^verbatim>\<open>hvsock_dequeue_accept\<close> \<open>n\<close> times and lists what the
  calls return.
\<close>

definition enqueue_all :: "hvsock_global \<Rightarrow> sk_ptr \<Rightarrow> sk_ptr list \<Rightarrow> hvsock_global" where
  "enqueue_all g listener cs = foldl (\<lambda>g' c. hvsock_enqueue_accept g' listener c) g cs"

fun dequeue_n :: "nat \<Rightarrow> hvsock_global \<Rightarrow> sk_ptr \<Rightarrow> sk_ptr option list \<times> hvsock_global" where
  "dequeue_n 0 g listener = ([], g)"
| "dequeue_n (Suc n) g listener =
     (case hvsock_dequeue_accept g listener of
        (c, g1) \<Rightarrow> (case dequeue_n n g1 listener of (cs, g2) \<Rightarrow> (c # cs, g2)))"

text \<open>
  Two environments for a sleeping caller: in the first a signal is pending when the caller
  wakes, in the second one jiffy passes and nothing else happens.
\<close>

definition ex_signal_sleep :: "nat \<Rightarrow> sleep_result" where
  "ex_signal_sleep k =
     \<lparr>elapsed = 0, signal_pending = True, concurrent = (\<lambda>s. s), concurrent_global = (\<lambda>g. g)\<rparr>"

definition ex_quiet_sleep :: "nat \<Rightarrow> sleep_result" where
  "ex_quiet_sleep k =
     \<lparr>elapsed = 1, signal_pending = False, concurrent = (\<lambda>s. s), concurrent_global = (\<lambda>g. g)\<rparr>"

subsection \<open>The locals of send and receive at entry\<close>

text \<open>
  The locals of \<^verbatim>\<open>hvsock_sendmsg\<close> and \<^verbatim>\<open>hvsock_recvmsg\<close> as they are when the function
  starts on the sock \<open>s\<close> with a request of \<open>len\<close> bytes: nothing polled, nothing slept,
  nothing transferred. A call that returns these locals with only \<open>ret\<close> changed has left
  the sock, the ring buffer and the receive cursor as they were.
\<close>

definition send_entry :: "hvsock_sock \<Rightarrow> nat \<Rightarrow> send_locals" where
  "send_entry s len =
     \<lparr>ret = 0, timeout = 0, hvsk = s, polls = 0, sleeps = 0,
      total_to_write = len, total_written = 0, chunks = 0, sent = []\<rparr>"

definition recv_entry :: "hvsock_sock \<Rightarrow> nat \<Rightarrow> recv_locals" where
  "recv_entry s len =
     \<lparr>ret = 0, timeout = 0, hvsk = s, polls = 0, sleeps = 0,
      total_to_read = len, copied = 0, pulled = 0, copies = 0, delivered = []\<rparr>"

text \<open>
  A flag of \<^verbatim>\<open>linux/socket.h\<close> other than \<^verbatim>\<open>MSG_DONTWAIT\<close>, and example inputs of send and
  receive: a message that names a destination, a ring buffer that always has room and
  takes the first packet only, a ring buffer with nothing to read.
\<close>

definition MSG_PEEK :: "32 word" where "MSG_PEEK = 2"

definition ex_named_msg :: msghdr where
  "ex_named_msg = \<lparr>msg_flags = 0, msg_namelen = 16, msg_iov = []\<rparr>"

definition ex_send_env :: send_env where
  "ex_send_env =
     \<lparr>can_write_at = (\<lambda>k. True), send_sleep_at = ex_quiet_sleep,
      memcpy_from_msg_ret = (\<lambda>j. 0),
      vmbus_sendpacket_ret = (\<lambda>j. if j = 0 then 0 else - EAGAIN)\<rparr>"

definition ex_recv_env :: recv_env where
  "ex_recv_env =
     \<lparr>can_read_at = (\<lambda>k. False),
      vmbus_recvpacket_at = (\<lambda>k. \<lparr>rp_ret = 0, rp_actual_len = 0, rp_pkt_type = 0,
                                   rp_data_size = 0, rp_payload = []\<rparr>),
      memcpy_to_msg_ret = (\<lambda>k. 0), recv_sleep_at = ex_quiet_sleep\<rparr>"

text \<open>
  The invariant of the send loop for a request of \<open>len\<close> bytes: the bytes written and the
  bytes still to write add up to the request, and the bytes written are the payload
  sizes of the packets handed to \<^verbatim>\<open>vmbus_sendpacket\<close> with success.
\<close>

definition send_inv :: "nat \<Rightarrow> send_locals \<Rightarrow> bool" where
  "send_inv len v \<longleftrightarrow>
     total_written v + total_to_write v = len \<and>
     total_written v = sum_list (map data_size (sent v))"

text \<open>
  A request of 5000 bytes, more than one send buffer holds, and a ring buffer that never
  has room.
\<close>

definition ex_payload :: "8 word list" where
  "ex_payload = replicate 5000 0"

definition ex_msg :: msghdr where
  "ex_msg = \<lparr>msg_flags = 0, msg_namelen = 0, msg_iov = ex_payload\<rparr>"

definition ex_blocked_env :: send_env where
  "ex_blocked_env = ex_send_env\<lparr>can_write_at := (\<lambda>k. False)\<rparr>"

section \<open>Bind\<close>

lemma find_bound_None_iff:
  "uu_hvsock_find_bound_socket g addr = None \<longleftrightarrow> shv_service_id addr \<notin> set (bound_ids g)"
  by (auto simp: uu_hvsock_find_bound_socket_def bound_ids_def find_None_iff uuid_equals_def)

lemma gen_loop_returns:
  "gen (n + d) \<notin> set (bound_ids g) \<Longrightarrow> (\<forall>j<d. gen (n + j) \<in> set (bound_ids g)) \<Longrightarrow>
   uuid_gen_until_unbound gen g hv n = Some (hv\<lparr>shv_service_id := gen (n + d)\<rparr>)"
proof (induction d arbitrary: n hv)
  case 0
  then show ?case
    by (subst uuid_gen_until_unbound.simps) (simp add: find_bound_None_iff)
next
  case (Suc d)
  from Suc.prems(2) have here: "gen n \<in> set (bound_ids g)" by (metis add.right_neutral zero_less_Suc)
  have later: "\<forall>j<d. gen (Suc n + j) \<in> set (bound_ids g)"
    using Suc.prems(2) by (metis Suc_less_eq add_Suc_shift)
  have "uuid_gen_until_unbound gen g (hv\<lparr>shv_service_id := gen n\<rparr>) (Suc n)
          = Some (hv\<lparr>shv_service_id := gen n\<rparr>\<lparr>shv_service_id := gen (Suc n + d)\<rparr>)"
    using Suc.IH[of "Suc n"] Suc.prems(1) later by simp
  then show ?case using here
    by (subst uuid_gen_until_unbound.simps) (simp add: find_bound_None_iff)
qed

lemma gen_loop_result:
  "uuid_gen_until_unbound gen g hv n = Some hv' \<Longrightarrow> shv_service_id hv' \<notin> set (bound_ids g)"
proof (rule uuid_gen_until_unbound.raw_induct
    [where P = "\<lambda>gen g hv n hv'. shv_service_id hv' \<notin> set (bound_ids g)"])
  fix f gen g hv n hv'
  assume IH: "\<And>gen g hv n hv'. f gen g hv n = Some hv' \<Longrightarrow> shv_service_id hv' \<notin> set (bound_ids g)"
    and step: "(let hv_addr' = hv\<lparr>shv_service_id := gen n\<rparr>
                in if uu_hvsock_find_bound_socket g hv_addr' \<noteq> None
                   then f gen g hv_addr' (Suc n) else Some hv_addr') = Some hv'"
  show "shv_service_id hv' \<notin> set (bound_ids g)"
  proof (cases "uu_hvsock_find_bound_socket g (hv\<lparr>shv_service_id := gen n\<rparr>) = None")
    case True
    with step show ?thesis by (auto simp: find_bound_None_iff)
  next
    case False
    with step IH show ?thesis by (simp add: Let_def)
  qed
qed

lemma commit_effect:
  "hvsock_bind_commit g p a =
     g\<lparr>sks := (sks g)(p := (sks g p)\<lparr>local_addr := hvsock_addr_init (shv_service_id a)\<rparr>),
       hvsock_bound_list := p # hvsock_bound_list g\<rparr>"
  by (simp add: hvsock_bind_commit_def uu_hvsock_insert_bound_def modify_sk_def)

lemma bound_ids_commit:
  "p \<notin> set (hvsock_bound_list g) \<Longrightarrow>
   bound_ids (hvsock_bind_commit g p a) = shv_service_id a # bound_ids g"
  by (auto simp: commit_effect bound_ids_def hvsock_addr_init_def)

lemma do_bind_wildcard_returns:
  assumes any: "shv_service_id addr = SHV_SERVICE_ID_ANY"
    and free: "gen k \<notin> set (bound_ids g)"
  shows "\<exists>k' \<le> k. gen k' \<notin> set (bound_ids g) \<and> (\<forall>j<k'. gen j \<in> set (bound_ids g)) \<and>
           uu_hvsock_do_bind gen g p addr =
             Some (0, hvsock_bind_commit g p (hvsock_addr_init (gen k')))"
proof -
  define k' where "k' = (LEAST i. gen i \<notin> set (bound_ids g))"
  have k'free: "gen k' \<notin> set (bound_ids g)"
    unfolding k'_def using free by (rule LeastI)
  have k'le: "k' \<le> k"
    unfolding k'_def using free by (rule Least_le)
  have before: "\<forall>j<k'. gen j \<in> set (bound_ids g)"
    unfolding k'_def using not_less_Least by blast
  have "uuid_gen_until_unbound gen g (hvsock_addr_init (shv_service_id addr)) 0
          = Some ((hvsock_addr_init (shv_service_id addr))\<lparr>shv_service_id := gen (0 + k')\<rparr>)"
    by (rule gen_loop_returns) (use k'free before in simp_all)
  then have "uu_hvsock_do_bind gen g p addr =
               Some (0, hvsock_bind_commit g p (hvsock_addr_init (gen k')))"
    using any by (simp add: uu_hvsock_do_bind_def uuid_equals_def commit_effect hvsock_addr_init_def)
  with k'free k'le before show ?thesis by blast
qed

lemma do_bind_wildcard_result:
  assumes any: "shv_service_id addr = SHV_SERVICE_ID_ANY"
    and res: "uu_hvsock_do_bind gen g p addr = Some (r, g')"
  shows "\<exists>u. u \<notin> set (bound_ids g) \<and> r = 0 \<and> g' = hvsock_bind_commit g p (hvsock_addr_init u)"
proof -
  from any res obtain hv' where
    loop: "uuid_gen_until_unbound gen g (hvsock_addr_init (shv_service_id addr)) 0 = Some hv'"
    and r: "r = 0" and g': "g' = hvsock_bind_commit g p hv'"
    by (auto simp: uu_hvsock_do_bind_def uuid_equals_def split: option.splits)
  from loop have "shv_service_id hv' \<notin> set (bound_ids g)" by (rule gen_loop_result)
  moreover have "hvsock_bind_commit g p hv' =
                 hvsock_bind_commit g p (hvsock_addr_init (shv_service_id hv'))"
    by (simp add: commit_effect hvsock_addr_init_def)
  ultimately show ?thesis using r g' by blast
qed

lemma do_bind_concrete:
  assumes "shv_service_id addr \<noteq> SHV_SERVICE_ID_ANY"
  shows "uu_hvsock_do_bind gen g p addr =
           Some (if shv_service_id addr \<in> set (bound_ids g) then (- EADDRINUSE, g)
                 else (0, hvsock_bind_commit g p (hvsock_addr_init (shv_service_id addr))))"
  using assms
  by (auto simp: uu_hvsock_do_bind_def uuid_equals_def find_bound_None_iff hvsock_addr_init_def
      commit_effect)

lemma do_bind_distinct:
  assumes d: "distinct (bound_ids g)" and notin: "p \<notin> set (hvsock_bound_list g)"
    and res: "uu_hvsock_do_bind gen g p addr = Some (r, g')"
  shows "distinct (bound_ids g')"
proof (cases "shv_service_id addr = SHV_SERVICE_ID_ANY")
  case True
  from do_bind_wildcard_result[OF True res] obtain u where
    "u \<notin> set (bound_ids g)" "g' = hvsock_bind_commit g p (hvsock_addr_init u)" by blast
  then show ?thesis using d notin by (simp add: bound_ids_commit hvsock_addr_init_def)
next
  case False
  from res do_bind_concrete[OF False, of gen g p] show ?thesis
    using d notin by (auto simp: bound_ids_commit hvsock_addr_init_def split: if_splits)
qed

lemma ex_bound_ids: "bound_ids ex_global = [5]"
  by (simp add: bound_ids_def ex_global_def ex_bound_sock_def hvsock_addr_init_def)

text \<open>
  C3. \<^verbatim>\<open>__hvsock_do_bind\<close> with the wildcard identifier: as soon as some identifier of the
  generator is held by no bound endpoint, the call returns 0 and commits the first such
  identifier (local address set, endpoint put into the bound registry); whenever it returns
  at all, it returns 0 and the committed identifier is held by no endpoint bound before.
  With a concrete identifier it returns \<^verbatim>\<open>-EADDRINUSE\<close>, changing nothing, exactly when a
  bound endpoint holds that identifier, and commits it otherwise. Either way, if the bound
  endpoints hold pairwise different identifiers and the caller is not yet in the bound
  registry, the identifiers are pairwise different afterwards.
\<close>

theorem hvsock_do_bind_spec:
  "(shv_service_id addr = SHV_SERVICE_ID_ANY \<and> gen k \<notin> set (bound_ids g) \<longrightarrow>
      (\<exists>k' \<le> k. gen k' \<notin> set (bound_ids g) \<and>
         uu_hvsock_do_bind gen g p addr =
           Some (0, g\<lparr>sks := (sks g)(p := (sks g p)\<lparr>local_addr := hvsock_addr_init (gen k')\<rparr>),
                      hvsock_bound_list := p # hvsock_bound_list g\<rparr>))) \<and>
   (shv_service_id addr = SHV_SERVICE_ID_ANY \<and> uu_hvsock_do_bind gen g p addr = Some (r, g') \<longrightarrow>
      r = 0 \<and> shv_service_id (local_addr (sks g' p)) \<notin> set (bound_ids g)) \<and>
   (shv_service_id addr \<noteq> SHV_SERVICE_ID_ANY \<longrightarrow>
      uu_hvsock_do_bind gen g p addr =
        Some (if shv_service_id addr \<in> set (bound_ids g) then (- EADDRINUSE, g)
              else (0, g\<lparr>sks := (sks g)(p := (sks g p)
                                   \<lparr>local_addr := hvsock_addr_init (shv_service_id addr)\<rparr>),
                         hvsock_bound_list := p # hvsock_bound_list g\<rparr>))) \<and>
   (distinct (bound_ids g) \<and> p \<notin> set (hvsock_bound_list g) \<and>
    uu_hvsock_do_bind gen g p addr = Some (r, g') \<longrightarrow> distinct (bound_ids g'))"
proof (intro conjI impI)
  assume "shv_service_id addr = SHV_SERVICE_ID_ANY \<and> gen k \<notin> set (bound_ids g)"
  then obtain k' where "k' \<le> k" "gen k' \<notin> set (bound_ids g)"
    "uu_hvsock_do_bind gen g p addr =
       Some (0, hvsock_bind_commit g p (hvsock_addr_init (gen k')))"
    using do_bind_wildcard_returns[of addr gen k g p] by blast
  then show "\<exists>k' \<le> k. gen k' \<notin> set (bound_ids g) \<and>
         uu_hvsock_do_bind gen g p addr =
           Some (0, g\<lparr>sks := (sks g)(p := (sks g p)\<lparr>local_addr := hvsock_addr_init (gen k')\<rparr>),
                      hvsock_bound_list := p # hvsock_bound_list g\<rparr>)"
    by (auto simp: commit_effect hvsock_addr_init_def)
next
  assume a: "shv_service_id addr = SHV_SERVICE_ID_ANY \<and> uu_hvsock_do_bind gen g p addr = Some (r, g')"
  then obtain u where u: "u \<notin> set (bound_ids g)" "r = 0"
    "g' = hvsock_bind_commit g p (hvsock_addr_init u)"
    using do_bind_wildcard_result[of addr gen g p r g'] by blast
  show "r = 0" by (rule u(2))
  show "shv_service_id (local_addr (sks g' p)) \<notin> set (bound_ids g)"
    using u by (simp add: commit_effect hvsock_addr_init_def)
next
  assume "shv_service_id addr \<noteq> SHV_SERVICE_ID_ANY"
  then show "uu_hvsock_do_bind gen g p addr =
        Some (if shv_service_id addr \<in> set (bound_ids g) then (- EADDRINUSE, g)
              else (0, g\<lparr>sks := (sks g)(p := (sks g p)
                                   \<lparr>local_addr := hvsock_addr_init (shv_service_id addr)\<rparr>),
                         hvsock_bound_list := p # hvsock_bound_list g\<rparr>))"
    by (simp add: do_bind_concrete commit_effect hvsock_addr_init_def)
next
  assume "distinct (bound_ids g) \<and> p \<notin> set (hvsock_bound_list g) \<and>
    uu_hvsock_do_bind gen g p addr = Some (r, g')"
  then show "distinct (bound_ids g')" using do_bind_distinct by blast
qed

theorem hvsock_do_bind_spec_witness:
  "(\<exists>g'. uu_hvsock_do_bind ex_gen ex_global 1 (hvsock_addr_init SHV_SERVICE_ID_ANY) = Some (0, g') \<and>
         shv_service_id (local_addr (sks g' 1)) = 6 \<and> hvsock_bound_list g' = [1, 0] \<and>
         distinct (bound_ids g')) \<and>
   uu_hvsock_do_bind ex_gen ex_global 1 (hvsock_addr_init 5) = Some (- EADDRINUSE, ex_global) \<and>
   (\<exists>g'. uu_hvsock_do_bind ex_gen ex_global 1 (hvsock_addr_init 9) = Some (0, g') \<and>
         shv_service_id (local_addr (sks g' 1)) = 9 \<and> hvsock_bound_list g' = [1, 0])"
proof -
  have any: "shv_service_id (hvsock_addr_init SHV_SERVICE_ID_ANY) = SHV_SERVICE_ID_ANY"
    by (simp add: hvsock_addr_init_def)
  have free: "ex_gen 1 \<notin> set (bound_ids ex_global)"
    by (simp add: ex_bound_ids ex_gen_def)
  have used: "ex_gen 0 \<in> set (bound_ids ex_global)"
    by (simp add: ex_bound_ids ex_gen_def)
  from hvsock_do_bind_spec[of "hvsock_addr_init SHV_SERVICE_ID_ANY" ex_gen 1 ex_global 1] any free
  obtain k' g' where k': "k' \<le> 1" "ex_gen k' \<notin> set (bound_ids ex_global)"
    and res: "uu_hvsock_do_bind ex_gen ex_global 1 (hvsock_addr_init SHV_SERVICE_ID_ANY) = Some (0, g')"
    and g': "g' = ex_global\<lparr>sks := (sks ex_global)(1 := (sks ex_global 1)\<lparr>local_addr := hvsock_addr_init (ex_gen k')\<rparr>),
                      hvsock_bound_list := 1 # hvsock_bound_list ex_global\<rparr>"
    by blast
  from k' used have "k' = 1" by (cases "k' = 0") auto
  with g' have a: "shv_service_id (local_addr (sks g' 1)) = 6" "hvsock_bound_list g' = [1, 0]"
    by (simp_all add: ex_gen_def hvsock_addr_init_def ex_global_def)
  have d: "distinct (bound_ids g')"
    using hvsock_do_bind_spec[of "hvsock_addr_init SHV_SERVICE_ID_ANY" ex_gen 1 ex_global 1 0 g'] res
    by (simp add: ex_bound_ids) (simp add: ex_global_def)
  have b: "uu_hvsock_do_bind ex_gen ex_global 1 (hvsock_addr_init 5) = Some (- EADDRINUSE, ex_global)"
    using hvsock_do_bind_spec[of "hvsock_addr_init 5" ex_gen 1 ex_global 1]
    by (simp add: ex_bound_ids hvsock_addr_init_def SHV_SERVICE_ID_ANY_def NULL_UUID_LE_def)
  have c0: "uu_hvsock_do_bind ex_gen ex_global 1 (hvsock_addr_init 9) =
      Some (0, ex_global\<lparr>sks := (sks ex_global)(1 := (sks ex_global 1)\<lparr>local_addr := hvsock_addr_init 9\<rparr>),
                         hvsock_bound_list := 1 # hvsock_bound_list ex_global\<rparr>)"
    using hvsock_do_bind_spec[of "hvsock_addr_init 9" ex_gen 1 ex_global 1]
    by (simp add: ex_bound_ids hvsock_addr_init_def SHV_SERVICE_ID_ANY_def NULL_UUID_LE_def)
  have c: "\<exists>g'. uu_hvsock_do_bind ex_gen ex_global 1 (hvsock_addr_init 9) = Some (0, g') \<and>
         shv_service_id (local_addr (sks g' 1)) = 9 \<and> hvsock_bound_list g' = [1, 0]"
    unfolding c0 by (simp add: hvsock_addr_init_def ex_global_def)
  from res a d b c show ?thesis by blast
qed

section \<open>Listen\<close>






section \<open>Shutdown\<close>

text \<open>
  C10. \<^verbatim>\<open>hvsock_shutdown\<close> returns \<^verbatim>\<open>-EINVAL\<close> for a mode outside \<^verbatim>\<open>SHUT_RD\<close> ..
  \<^verbatim>\<open>SHUT_RDWR\<close>; for a mode inside it returns \<^verbatim>\<open>-ENOTCONN\<close> when \<^verbatim>\<open>sock->state\<close> is
  \<^verbatim>\<open>SS_UNCONNECTED\<close>; in both cases nothing changes. Otherwise it returns 0, sets
  \<^verbatim>\<open>sock->state\<close> to \<^verbatim>\<open>SS_DISCONNECTING\<close>, ORs the bits of the mode (1, 2, 3) into
  \<^verbatim>\<open>sk_shutdown\<close> and calls \<^verbatim>\<open>sk_state_change\<close>; every bit of \<^verbatim>\<open>sk_shutdown\<close> that was
  set stays set.
\<close>

theorem hvsock_shutdown_spec:
  "(mode < SHUT_RD \<or> mode > SHUT_RDWR \<longrightarrow> hvsock_shutdown sock s mode = (- EINVAL, sock, s)) \<and>
   (SHUT_RD \<le> mode \<and> mode \<le> SHUT_RDWR \<and> state sock = SS_UNCONNECTED
      \<longrightarrow> hvsock_shutdown sock s mode = (- ENOTCONN, sock, s)) \<and>
   (SHUT_RD \<le> mode \<and> mode \<le> SHUT_RDWR \<and> state sock \<noteq> SS_UNCONNECTED
      \<longrightarrow> hvsock_shutdown sock s mode =
            (0, sock\<lparr>state := SS_DISCONNECTING\<rparr>,
             s\<lparr>sk_shutdown := sk_shutdown s OR shut_bits mode,
               sk_wakeups := sk_wakeups s @ [STATE_CHANGE]\<rparr>) \<and>
          (\<forall>n. bit (sk_shutdown s) n
                \<longrightarrow> bit (sk_shutdown (snd (snd (hvsock_shutdown sock s mode)))) n))"
proof -
  have m: "word_of_int mode + 1 = shut_bits mode" if "SHUT_RD \<le> mode" "mode \<le> SHUT_RDWR"
  proof -
    from that have "mode = 0 \<or> mode = 1 \<or> mode = 2" by (auto simp: SHUT_RD_def SHUT_RDWR_def)
    then show ?thesis
      by (auto simp: shut_bits_def SHUT_RD_def SHUT_WR_def SHUT_RDWR_def RCV_SHUTDOWN_def
          SEND_SHUTDOWN_def SHUTDOWN_MASK_def)
  qed
  show ?thesis
    by (auto simp: hvsock_shutdown_def Let_def sk_state_change_def m bit_or_iff)
qed

theorem hvsock_shutdown_spec_witness:
  "hvsock_shutdown (ex_socket\<lparr>state := SS_CONNECTED\<rparr>) (ex_sock\<lparr>sk_shutdown := 1\<rparr>) SHUT_WR =
     (0, ex_socket\<lparr>state := SS_DISCONNECTING\<rparr>,
      ex_sock\<lparr>sk_shutdown := 3, sk_wakeups := [STATE_CHANGE]\<rparr>) \<and>
   hvsock_shutdown (ex_socket\<lparr>state := SS_CONNECTED\<rparr>) ex_sock 3
     = (- EINVAL, ex_socket\<lparr>state := SS_CONNECTED\<rparr>, ex_sock) \<and>
   hvsock_shutdown ex_socket ex_sock SHUT_RD = (- ENOTCONN, ex_socket, ex_sock) \<and>
   bit (sk_shutdown (snd (snd (hvsock_shutdown (ex_socket\<lparr>state := SS_CONNECTED\<rparr>)
                                  (ex_sock\<lparr>sk_shutdown := 1\<rparr>) SHUT_WR)))) 0"
proof -
  have s: "state ex_socket = SS_UNCONNECTED" "sk_wakeups ex_sock = []"
    by (simp_all add: ex_socket_def ex_sock_def uu_hvsock_create_def)
  have w: "(1::8 word) OR shut_bits SHUT_WR = 3"
    by (simp add: shut_bits_def SHUT_WR_def SHUT_RD_def SEND_SHUTDOWN_def)
  show ?thesis
    using hvsock_shutdown_spec[of SHUT_WR "ex_socket\<lparr>state := SS_CONNECTED\<rparr>" "ex_sock\<lparr>sk_shutdown := 1\<rparr>"]
      hvsock_shutdown_spec[of 3 "ex_socket\<lparr>state := SS_CONNECTED\<rparr>" ex_sock]
      hvsock_shutdown_spec[of SHUT_RD ex_socket ex_sock]
      s w
    by (simp add: SHUT_RD_def SHUT_WR_def SHUT_RDWR_def)
qed

section \<open>Channel rescission\<close>

lemma close_connection_no_owner:
  "uu_hvsock_find_connected_socket_by_channel g c = None \<Longrightarrow> hvsock_close_connection g c = Inr g"
  by (simp add: hvsock_close_connection_def)

lemma close_connection_owner:
  assumes "uu_hvsock_find_connected_socket_by_channel g c = Some p"
    and "sk_socket (sks g p) = Some so"
  shows "hvsock_close_connection g c =
     Inr (g\<lparr>sockets := (sockets g)(so := (sockets g so)\<lparr>state := SS_UNCONNECTED\<rparr>),
            sks := (sks g)(p := (sks g p)
              \<lparr>sk_state := SS_UNCONNECTED, sock_done := True,
               peer_shutdown := peer_shutdown (sks g p) OR SHUTDOWN_MASK,
               sk_wakeups := sk_wakeups (sks g p) @ [STATE_CHANGE]\<rparr>)\<rparr>)"
proof -
  have "SEND_SHUTDOWN OR RCV_SHUTDOWN = SHUTDOWN_MASK"
    by (simp add: SEND_SHUTDOWN_def RCV_SHUTDOWN_def SHUTDOWN_MASK_def)
  then show ?thesis using assms
    by (simp add: hvsock_close_connection_def modify_sk_def sk_state_change_def Let_def)
qed

lemma close_connection_no_socket:
  assumes "uu_hvsock_find_connected_socket_by_channel g c = Some p"
    and "sk_socket (sks g p) = None"
  shows "hvsock_close_connection g c = Inl NULL_DEREF"
  using assms by (simp add: hvsock_close_connection_def)

lemma ex_listen_bound_ids: "bound_ids ex_listen_global = [5]"
  by (simp add: bound_ids_def ex_listen_global_def ex_listener_def ex_bound_sock_def
      hvsock_addr_init_def)

section \<open>Channel offers\<close>

lemma find_bound_init:
  "u \<notin> set (bound_ids g) \<Longrightarrow> uu_hvsock_find_bound_socket g (hvsock_addr_init u) = None"
  by (simp add: find_bound_None_iff hvsock_addr_init_def)

lemma open_connection_origin_not_connecting:
  assumes "uu_hvsock_find_bound_socket g (hvsock_addr_init (if_instance ch)) = Some q"
    and "sk_state (sks g q) \<noteq> SS_CONNECTING"
  shows "hvsock_open_connection g ch r a = Inr (- ENXIO, g)"
  using assms by (simp add: hvsock_open_connection_def Let_def)


lemma open_connection_no_listener:
  assumes "if_instance ch \<notin> set (bound_ids g)"
    and "if_type ch \<notin> set (bound_ids g)"
  shows "hvsock_open_connection g ch r a = Inr (- ENXIO, g)"
  using assms by (simp add: hvsock_open_connection_def Let_def find_bound_init)

lemma open_connection_not_listening:
  assumes "if_instance ch \<notin> set (bound_ids g)"
    and "uu_hvsock_find_bound_socket g (hvsock_addr_init (if_type ch)) = Some p"
    and "sk_state (sks g p) \<noteq> SS_LISTEN"
  shows "hvsock_open_connection g ch r a = Inr (- ENXIO, g)"
  using assms by (simp add: hvsock_open_connection_def Let_def find_bound_init)

lemma open_connection_backlog_full:
  assumes "if_instance ch \<notin> set (bound_ids g)"
    and "uu_hvsock_find_bound_socket g (hvsock_addr_init (if_type ch)) = Some p"
    and "sk_state (sks g p) = SS_LISTEN"
    and "sk_max_ack_backlog (sks g p) \<le> sk_ack_backlog (sks g p)"
  shows "hvsock_open_connection g ch r a = Inr (- EMFILE, g)"
  using assms by (simp add: hvsock_open_connection_def Let_def find_bound_init)

lemma open_connection_env_fails:
  assumes "if_instance ch \<notin> set (bound_ids g)"
    and "uu_hvsock_find_bound_socket g (hvsock_addr_init (if_type ch)) = Some p"
    and "sk_state (sks g p) = SS_LISTEN"
    and "sk_ack_backlog (sks g p) < sk_max_ack_backlog (sks g p)"
  shows "hvsock_open_connection g ch r None = Inr (- ENOMEM, g)"
  using assms by (simp add: hvsock_open_connection_def Let_def find_bound_init not_le [symmetric])

lemma open_connection_open_fails:
  assumes "if_instance ch \<notin> set (bound_ids g)"
    and "uu_hvsock_find_bound_socket g (hvsock_addr_init (if_type ch)) = Some p"
    and "sk_state (sks g p) = SS_LISTEN"
    and "sk_ack_backlog (sks g p) < sk_max_ack_backlog (sks g p)"
    and "r \<noteq> 0"
  shows "hvsock_open_connection g ch r (Some n) = Inr (r, g)"
  using assms by (simp add: hvsock_open_connection_def Let_def find_bound_init not_le [symmetric])

lemma open_connection_passive:
  assumes "if_instance ch \<notin> set (bound_ids g)"
    and "uu_hvsock_find_bound_socket g (hvsock_addr_init (if_type ch)) = Some p"
    and "sk_state (sks g p) = SS_LISTEN"
    and "sk_ack_backlog (sks g p) < sk_max_ack_backlog (sks g p)"
    and "n \<noteq> p"
  shows "hvsock_open_connection g ch 0 (Some n) =
     Inr (0, g\<lparr>hvsock_connected_list := n # hvsock_connected_list g,
               sks := (sks g)
                 (n := (uu_hvsock_create None (sk_type (sks g p)))
                         \<lparr>local_addr := hvsock_addr_init (if_type ch),
                          remote_addr := hvsock_addr_init (if_instance ch),
                          channel := Some (chan ch),
                          sk_state := SS_CONNECTED\<rparr>,
                  p := (sks g p)\<lparr>accept_queue := accept_queue (sks g p) @ [n],
                                 sk_ack_backlog := sk_ack_backlog (sks g p) + 1,
                                 sk_wakeups := sk_wakeups (sks g p) @ [STATE_CHANGE]\<rparr>)\<rparr>)"
  using assms
  by (simp add: hvsock_open_connection_def Let_def modify_sk_def hvsock_insert_connected_def
      uu_hvsock_insert_connected_def sk_state_change_def hvsock_enqueue_accept_def
      find_bound_init not_le [symmetric])

lemma ex_listen_find: "uu_hvsock_find_bound_socket ex_listen_global (hvsock_addr_init 5) = Some 10"
  by (simp add: uu_hvsock_find_bound_socket_def ex_listen_global_def ex_listener_def
      ex_bound_sock_def hvsock_addr_init_def uuid_equals_def)

lemma ex_listen_fields:
  "sks ex_listen_global 10 = ex_listener"
  "sk_state ex_listener = SS_LISTEN"
  "sk_ack_backlog ex_listener = 0"
  "sk_max_ack_backlog ex_listener = 2"
  "sk_type ex_listener = SOCK_STREAM"
  "accept_queue ex_listener = []"
  "sk_wakeups ex_listener = []"
  "sk_err ex_listener = 0"
  "hvsock_connected_list ex_listen_global = []"
  by (simp_all add: ex_listen_global_def ex_listener_def ex_bound_sock_def ex_sock_def
      uu_hvsock_create_def ex_socket_def)

lemma ex_open_passive:
  "hvsock_open_connection ex_listen_global ex_offer 0 (Some 11) = Inr (0, ex_queued_global)"
  unfolding ex_queued_global_def ex_child_def
  by (subst open_connection_passive[where p = 10])
    (simp_all add: ex_offer_def ex_listen_bound_ids ex_listen_find ex_listen_fields)

text \<open>
  C8. Rescission of a channel that no sock of the connected registry owns changes nothing
  (\<open>close_connection_no_owner\<close>), and the owner gets both peer-shutdown bits,
  \<^verbatim>\<open>SS_UNCONNECTED\<close>, \<^verbatim>\<open>SOCK_DONE\<close> and a wake-up when a socket is attached to it
  (\<open>close_connection_owner\<close>). The owner that \<^verbatim>\<open>hvsock_open_connection\<close> has derived
  for a listener and that \<^verbatim>\<open>hvsock_accept\<close> has not yet handed out has no socket:
  \<^verbatim>\<open>__hvsock_create\<close> was called with \<^verbatim>\<open>sock == NULL\<close>, and only \<^verbatim>\<open>sock_graft\<close> sets
  \<^verbatim>\<open>sk_socket\<close>. There \<^verbatim>\<open>sk->sk_socket->state = SS_UNCONNECTED\<close> dereferences \<^verbatim>\<open>NULL\<close>
  and none of the updates happens.
\<close>

theorem hvsock_close_connection_unaccepted:
  "hvsock_open_connection ex_listen_global ex_offer 0 (Some 11) = Inr (0, ex_queued_global) \<and>
   uu_hvsock_find_connected_socket_by_channel ex_queued_global (chan ex_offer) = Some 11 \<and>
   sk_socket (sks ex_queued_global 11) = None \<and>
   hvsock_close_connection ex_queued_global (chan ex_offer) = Inl NULL_DEREF"
proof -
  have f: "uu_hvsock_find_connected_socket_by_channel ex_queued_global (chan ex_offer) = Some 11"
    by (simp add: uu_hvsock_find_connected_socket_by_channel_def ex_queued_global_def ex_offer_def
        ex_child_def)
  have n: "sk_socket (sks ex_queued_global 11) = None"
    by (simp add: ex_queued_global_def ex_child_def uu_hvsock_create_def)
  from ex_open_passive f n close_connection_no_socket[OF f n] show ?thesis by simp
qed















lemma backlog_increment:
  fixes x y :: "16 word"
  assumes "x < y"
  shows "unat (x + 1) = Suc (unat x)"
proof -
  from assms have "unat x < unat y" by (simp add: word_less_nat_alt)
  moreover have "unat y < 2 ^ 16" using unsigned_less[of y] by simp
  ultimately have "unat x + unat (1::16 word) < 2 ^ LENGTH(16)" by simp
  then have "unat (x + 1) = unat x + unat (1::16 word)" by (simp only: unat_add_lem)
  then show ?thesis by simp
qed

text \<open>
  C5, as the code has it. When no bound endpoint holds the origin identifier, a
  \<^verbatim>\<open>SS_LISTEN\<close> endpoint is bound to the target identifier with its backlog count below
  its limit, \<^verbatim>\<open>sk_alloc\<close> returns fresh memory and \<^verbatim>\<open>vmbus_open\<close> returns 0: the offer
  is accepted, the new sock has the target as local and the origin as remote identifier, is
  \<^verbatim>\<open>SS_CONNECTED\<close>, heads the connected registry and ends the listener's accept queue,
  whose count grows by one; nothing else changes. The offer is rejected and the state is as
  before: with \<^verbatim>\<open>-ENOMEM\<close> or the error of \<^verbatim>\<open>vmbus_open\<close> when the environment fails,
  with \<^verbatim>\<open>-ENXIO\<close> when no endpoint is bound to the target or the one bound is not
  listening, with \<^verbatim>\<open>-EMFILE\<close> when the count has reached the limit, and with \<^verbatim>\<open>-ENXIO\<close>
  when the endpoint bound to the origin identifier is not \<^verbatim>\<open>SS_CONNECTING\<close>, whatever
  listens on the target.
\<close>

theorem hvsock_open_connection_listener_spec:
  "(if_instance ch \<notin> set (bound_ids g) \<and>
    uu_hvsock_find_bound_socket g (hvsock_addr_init (if_type ch)) = Some p \<and>
    sk_state (sks g p) = SS_LISTEN \<and>
    sk_ack_backlog (sks g p) < sk_max_ack_backlog (sks g p) \<and> n \<noteq> p \<longrightarrow>
      hvsock_open_connection g ch 0 (Some n) =
        Inr (0, g\<lparr>hvsock_connected_list := n # hvsock_connected_list g,
                  sks := (sks g)
                    (n := (uu_hvsock_create None (sk_type (sks g p)))
                            \<lparr>local_addr := hvsock_addr_init (if_type ch),
                             remote_addr := hvsock_addr_init (if_instance ch),
                             channel := Some (chan ch),
                             sk_state := SS_CONNECTED\<rparr>,
                     p := (sks g p)\<lparr>accept_queue := accept_queue (sks g p) @ [n],
                                    sk_ack_backlog := sk_ack_backlog (sks g p) + 1,
                                    sk_wakeups := sk_wakeups (sks g p) @ [STATE_CHANGE]\<rparr>)\<rparr>) \<and>
      unat (sk_ack_backlog (sks g p) + 1) = Suc (unat (sk_ack_backlog (sks g p))) \<and>
      hvsock_open_connection g ch r None = Inr (- ENOMEM, g) \<and>
      (r \<noteq> 0 \<longrightarrow> hvsock_open_connection g ch r (Some n) = Inr (r, g))) \<and>
   (if_instance ch \<notin> set (bound_ids g) \<and> if_type ch \<notin> set (bound_ids g) \<longrightarrow>
      hvsock_open_connection g ch r a = Inr (- ENXIO, g)) \<and>
   (if_instance ch \<notin> set (bound_ids g) \<and>
    uu_hvsock_find_bound_socket g (hvsock_addr_init (if_type ch)) = Some p \<and>
    sk_state (sks g p) \<noteq> SS_LISTEN \<longrightarrow>
      hvsock_open_connection g ch r a = Inr (- ENXIO, g)) \<and>
   (if_instance ch \<notin> set (bound_ids g) \<and>
    uu_hvsock_find_bound_socket g (hvsock_addr_init (if_type ch)) = Some p \<and>
    sk_state (sks g p) = SS_LISTEN \<and>
    sk_max_ack_backlog (sks g p) \<le> sk_ack_backlog (sks g p) \<longrightarrow>
      hvsock_open_connection g ch r a = Inr (- EMFILE, g)) \<and>
   (uu_hvsock_find_bound_socket g (hvsock_addr_init (if_instance ch)) = Some q \<and>
    sk_state (sks g q) \<noteq> SS_CONNECTING \<longrightarrow>
      hvsock_open_connection g ch r a = Inr (- ENXIO, g))"
  using open_connection_passive[of ch g p n] open_connection_env_fails[of ch g p r]
    open_connection_open_fails[of ch g p r n]
    open_connection_no_listener[of ch g r a] open_connection_not_listening[of ch g p r a]
    open_connection_backlog_full[of ch g p r a] open_connection_origin_not_connecting[of g ch q r a]
    backlog_increment[of "sk_ack_backlog (sks g p)" "sk_max_ack_backlog (sks g p)"]
  by blast

lemma ex_origin_bound_facts:
  "uu_hvsock_find_bound_socket ex_origin_bound_global (hvsock_addr_init 7) = Some 12"
  "uu_hvsock_find_bound_socket ex_origin_bound_global (hvsock_addr_init 5) = Some 10"
  "sk_state (sks ex_origin_bound_global 12) = SS_FREE"
  "sks ex_origin_bound_global 10 = ex_listener"
  "hvsock_bound_list ex_origin_bound_global = [12, 10]"
  by (simp_all add: uu_hvsock_find_bound_socket_def ex_origin_bound_global_def ex_bound_sock_def
      ex_listener_def hvsock_addr_init_def uuid_equals_def ex_sock_def uu_hvsock_create_def)

text \<open>
  C5 as stated fails: no endpoint is connecting, a listener with room is bound to the
  target 5, yet the offer is rejected, because the sock at 12 is bound to the origin 7.
\<close>

theorem hvsock_open_connection_listener_counterexample:
  "hvsock_bound_list ex_origin_bound_global = [12, 10] \<and>
   sk_state (sks ex_origin_bound_global 12) = SS_FREE \<and>
   uu_hvsock_find_bound_socket ex_origin_bound_global (hvsock_addr_init (if_type ex_offer)) = Some 10 \<and>
   sk_state (sks ex_origin_bound_global 10) = SS_LISTEN \<and>
   sk_ack_backlog (sks ex_origin_bound_global 10) < sk_max_ack_backlog (sks ex_origin_bound_global 10) \<and>
   hvsock_open_connection ex_origin_bound_global ex_offer 0 (Some 11)
     = Inr (- ENXIO, ex_origin_bound_global)"
proof -
  have "hvsock_open_connection ex_origin_bound_global ex_offer 0 (Some 11)
     = Inr (- ENXIO, ex_origin_bound_global)"
    by (rule open_connection_origin_not_connecting[where q = 12])
      (simp_all add: ex_offer_def ex_origin_bound_facts)
  then show ?thesis by (simp add: ex_origin_bound_facts ex_listen_fields ex_offer_def)
qed

theorem hvsock_open_connection_listener_spec_witness:
  "hvsock_open_connection ex_listen_global ex_offer 0 (Some 11) = Inr (0, ex_queued_global) \<and>
   unat (sk_ack_backlog (sks ex_queued_global 10)) = 1 \<and>
   hvsock_open_connection ex_listen_global ex_offer 0 None = Inr (- ENOMEM, ex_listen_global) \<and>
   hvsock_open_connection ex_listen_global ex_offer (- 12) (Some 11) = Inr (- 12, ex_listen_global) \<and>
   hvsock_open_connection ex_listen_global (ex_offer\<lparr>if_type := 6\<rparr>) 0 (Some 11)
     = Inr (- ENXIO, ex_listen_global) \<and>
   hvsock_open_connection ex_global ex_offer 0 (Some 11) = Inr (- ENXIO, ex_global) \<and>
   hvsock_open_connection ex_full_global ex_offer 0 (Some 11) = Inr (- EMFILE, ex_full_global) \<and>
   hvsock_open_connection ex_origin_bound_global ex_offer 0 (Some 11)
     = Inr (- ENXIO, ex_origin_bound_global)"
proof -
  have o: "if_instance ex_offer = 7" "if_type ex_offer = 5" "chan ex_offer = 9"
    by (simp_all add: ex_offer_def)
  have q: "ex_queued_global =
      ex_listen_global\<lparr>hvsock_connected_list := 11 # hvsock_connected_list ex_listen_global,
                  sks := (sks ex_listen_global)
                    (11 := (uu_hvsock_create None (sk_type (sks ex_listen_global 10)))
                            \<lparr>local_addr := hvsock_addr_init (if_type ex_offer),
                             remote_addr := hvsock_addr_init (if_instance ex_offer),
                             channel := Some (chan ex_offer),
                             sk_state := SS_CONNECTED\<rparr>,
                     10 := (sks ex_listen_global 10)\<lparr>accept_queue := accept_queue (sks ex_listen_global 10) @ [11],
                                    sk_ack_backlog := sk_ack_backlog (sks ex_listen_global 10) + 1,
                                    sk_wakeups := sk_wakeups (sks ex_listen_global 10) @ [STATE_CHANGE]\<rparr>)\<rparr>"
    by (simp add: ex_queued_global_def ex_child_def o ex_listen_fields)
  have full: "bound_ids ex_full_global = [5]"
    "uu_hvsock_find_bound_socket ex_full_global (hvsock_addr_init 5) = Some 10"
    "sk_state (sks ex_full_global 10) = SS_LISTEN" "sk_ack_backlog (sks ex_full_global 10) = 2"
    "sk_max_ack_backlog (sks ex_full_global 10) = 2"
    by (simp_all add: bound_ids_def uu_hvsock_find_bound_socket_def ex_listen_global_def
        ex_full_global_def ex_listener_def ex_bound_sock_def hvsock_addr_init_def uuid_equals_def)
  have g: "uu_hvsock_find_bound_socket ex_global (hvsock_addr_init 5) = Some 0"
    "sk_state (sks ex_global 0) = SS_FREE"
    by (simp_all add: uu_hvsock_find_bound_socket_def ex_global_def ex_bound_sock_def
        hvsock_addr_init_def uuid_equals_def ex_sock_def uu_hvsock_create_def)
  note spec = hvsock_open_connection_listener_spec
  have a: "hvsock_open_connection ex_listen_global ex_offer 0 (Some 11) = Inr (0, ex_queued_global)"
    "hvsock_open_connection ex_listen_global ex_offer 0 None = Inr (- ENOMEM, ex_listen_global)"
    using spec[where ch = ex_offer and g = ex_listen_global and p = 10 and n = 11 and r = 0]
    unfolding q by (simp_all add: o ex_listen_bound_ids ex_listen_find ex_listen_fields)
  have a': "hvsock_open_connection ex_listen_global ex_offer (- 12) (Some 11) = Inr (- 12, ex_listen_global)"
    using spec[where ch = ex_offer and g = ex_listen_global and p = 10 and n = 11 and r = "- 12"]
    by (simp add: o ex_listen_bound_ids ex_listen_find ex_listen_fields)
  have b: "hvsock_open_connection ex_listen_global (ex_offer\<lparr>if_type := 6\<rparr>) 0 (Some 11)
     = Inr (- ENXIO, ex_listen_global)"
    using spec[where ch = "ex_offer\<lparr>if_type := 6\<rparr>" and g = ex_listen_global and r = 0 and a = "Some 11"]
    by (simp add: o ex_listen_bound_ids)
  have c: "hvsock_open_connection ex_global ex_offer 0 (Some 11) = Inr (- ENXIO, ex_global)"
    using spec[where ch = ex_offer and g = ex_global and p = 0 and r = 0 and a = "Some 11"]
    by (simp add: o ex_bound_ids g)
  have d: "hvsock_open_connection ex_full_global ex_offer 0 (Some 11) = Inr (- EMFILE, ex_full_global)"
    using spec[where ch = ex_offer and g = ex_full_global and p = 10 and r = 0 and a = "Some 11"]
    by (simp add: o full)
  have e: "hvsock_open_connection ex_origin_bound_global ex_offer 0 (Some 11)
     = Inr (- ENXIO, ex_origin_bound_global)"
    using spec[where ch = ex_offer and g = ex_origin_bound_global and q = 12 and r = 0 and a = "Some 11"]
    by (simp add: o ex_origin_bound_facts)
  have u: "unat (sk_ack_backlog (sks ex_queued_global 10)) = 1"
    by (simp add: ex_queued_global_def)
  from a a' u b c d e show ?thesis by simp
qed

section \<open>The two registries\<close>






section \<open>The accept queue and accept\<close>

lemma enqueue_effect:
  "hvsock_enqueue_accept g l c =
     g\<lparr>sks := (sks g)(l := (sks g l)\<lparr>accept_queue := accept_queue (sks g l) @ [c],
                                     sk_ack_backlog := sk_ack_backlog (sks g l) + 1\<rparr>)\<rparr>"
  by (simp add: hvsock_enqueue_accept_def modify_sk_def)

lemma dequeue_empty:
  "accept_queue (sks g l) = [] \<Longrightarrow> hvsock_dequeue_accept g l = (None, g)"
  by (simp add: hvsock_dequeue_accept_def)

lemma dequeue_head:
  "accept_queue (sks g l) = c # cs \<Longrightarrow>
   hvsock_dequeue_accept g l =
     (Some c, g\<lparr>sks := (sks g)(l := (sks g l)\<lparr>accept_queue := cs,
                                              sk_ack_backlog := sk_ack_backlog (sks g l) - 1\<rparr>)\<rparr>)"
  by (simp add: hvsock_dequeue_accept_def modify_sk_def)

lemma enqueue_all_queue:
  "accept_queue (sks (enqueue_all g l cs) l) = accept_queue (sks g l) @ cs"
  unfolding enqueue_all_def
  by (induction cs arbitrary: g) (simp_all add: enqueue_effect)

lemma dequeue_n_fifo:
  "accept_queue (sks g l) = q @ r \<Longrightarrow>
   fst (dequeue_n (length q) g l) = map Some q \<and>
   accept_queue (sks (snd (dequeue_n (length q) g l)) l) = r"
proof (induction q arbitrary: g)
  case Nil
  then show ?case by simp
next
  case (Cons c q)
  then have h: "accept_queue (sks g l) = c # (q @ r)" by simp
  let ?g1 = "g\<lparr>sks := (sks g)(l := (sks g l)\<lparr>accept_queue := q @ r,
                                              sk_ack_backlog := sk_ack_backlog (sks g l) - 1\<rparr>)\<rparr>"
  have "accept_queue (sks ?g1 l) = q @ r" by simp
  from Cons.IH[OF this] show ?case
    by (auto simp: dequeue_head[OF h] split: prod.splits)
qed

lemma accept_wait_ready:
  assumes "accept_queue (sks g l) = c # cs"
  shows "accept_wait slp g l t k =
     Some (Accept_done (Some c)
       (g\<lparr>sks := (sks g)(l := (sks g l)\<lparr>accept_queue := cs,
                                        sk_ack_backlog := sk_ack_backlog (sks g l) - 1\<rparr>)\<rparr>))"
  by (subst accept_wait.simps) (simp add: dequeue_head[OF assms])

lemma accept_wait_nonblock:
  assumes "accept_queue (sks g l) = []" and "sk_err (sks g l) = 0"
  shows "accept_wait slp g l 0 k =
     Some (Accept_out_wait (if signal_pending (slp k) then - EINTR else - EAGAIN)
        (concurrent_global (slp k) g))"
  by (subst accept_wait.simps)
    (simp add: dequeue_empty assms schedule_timeout_def sock_intr_errno_def
      MAX_SCHEDULE_TIMEOUT_def Let_def)

lemma accept_head:
  assumes "sk (sockets g sock) = Some l" and "type (sockets g sock) = SOCK_STREAM"
    and "sk_state (sks g l) = SS_LISTEN" and "accept_queue (sks g l) = c # cs"
    and "sk_err (sks g l) = 0"
  shows "\<exists>g'. hvsock_accept slp g sock newsock flags = Some (Inr (0, g')) \<and>
           sk (sockets g' newsock) = Some c \<and> state (sockets g' newsock) = SS_CONNECTED \<and>
           sk_socket (sks g' c) = Some newsock \<and> accept_queue (sks g' l) = cs \<and>
           sk_ack_backlog (sks g' l) = sk_ack_backlog (sks g l) - 1"
  using assms
  by (simp add: hvsock_accept_def accept_wait_ready Let_def sock_graft_def modify_sk_def)

lemma accept_nonblock:
  assumes "sk (sockets g sock) = Some l" and "type (sockets g sock) = SOCK_STREAM"
    and "sk_state (sks g l) = SS_LISTEN" and "accept_queue (sks g l) = []"
    and "sk_err (sks g l) = 0" and "flags AND O_NONBLOCK \<noteq> 0"
  shows "hvsock_accept slp g sock newsock flags =
     Some (Inr (if signal_pending (slp 0) then - EINTR else - EAGAIN, concurrent_global (slp 0) g))"
  using assms
  by (simp add: hvsock_accept_def accept_wait_nonblock Let_def sock_sndtimeo_def)

text \<open>
  C7, as the code has it. \<^verbatim>\<open>hvsock_enqueue_accept\<close> appends the sock at the tail of the
  listener's queue and adds one to \<^verbatim>\<open>sk_ack_backlog\<close>; \<^verbatim>\<open>hvsock_dequeue_accept\<close> returns
  \<^verbatim>\<open>NULL\<close> on an empty queue and otherwise takes the head off and subtracts one. So socks
  queued on an empty queue are dequeued in the order of their arrival. On a stream
  listener without error whose queue is not empty, \<^verbatim>\<open>hvsock_accept\<close> returns 0 and
  grafts the head of the queue, the oldest entry, onto the new socket. On a stream
  listener without error whose queue is empty, a non-blocking \<^verbatim>\<open>hvsock_accept\<close> returns
  \<^verbatim>\<open>-EAGAIN\<close>, unless a signal is pending for the caller: then it returns \<^verbatim>\<open>-EINTR\<close>.
\<close>

theorem hvsock_accept_queue_spec:
  "hvsock_enqueue_accept g l c =
     g\<lparr>sks := (sks g)(l := (sks g l)\<lparr>accept_queue := accept_queue (sks g l) @ [c],
                                     sk_ack_backlog := sk_ack_backlog (sks g l) + 1\<rparr>)\<rparr> \<and>
   (accept_queue (sks g l) = [] \<longrightarrow> hvsock_dequeue_accept g l = (None, g)) \<and>
   (accept_queue (sks g l) = c # cs \<longrightarrow>
      hvsock_dequeue_accept g l =
        (Some c, g\<lparr>sks := (sks g)(l := (sks g l)\<lparr>accept_queue := cs,
                                                 sk_ack_backlog := sk_ack_backlog (sks g l) - 1\<rparr>)\<rparr>)) \<and>
   (accept_queue (sks g l) = [] \<longrightarrow>
      fst (dequeue_n (length cs) (enqueue_all g l cs) l) = map Some cs \<and>
      accept_queue (sks (snd (dequeue_n (length cs) (enqueue_all g l cs) l)) l) = []) \<and>
   (sk (sockets g sock) = Some l \<and> type (sockets g sock) = SOCK_STREAM \<and>
    sk_state (sks g l) = SS_LISTEN \<and> accept_queue (sks g l) = c # cs \<and> sk_err (sks g l) = 0 \<longrightarrow>
      (\<exists>g'. hvsock_accept slp g sock newsock flags = Some (Inr (0, g')) \<and>
            sk (sockets g' newsock) = Some c \<and> state (sockets g' newsock) = SS_CONNECTED \<and>
            sk_socket (sks g' c) = Some newsock \<and> accept_queue (sks g' l) = cs \<and>
            sk_ack_backlog (sks g' l) = sk_ack_backlog (sks g l) - 1)) \<and>
   (sk (sockets g sock) = Some l \<and> type (sockets g sock) = SOCK_STREAM \<and>
    sk_state (sks g l) = SS_LISTEN \<and> accept_queue (sks g l) = [] \<and> sk_err (sks g l) = 0 \<and>
    flags AND O_NONBLOCK \<noteq> 0 \<longrightarrow>
      hvsock_accept slp g sock newsock flags =
        Some (Inr (if signal_pending (slp 0) then - EINTR else - EAGAIN,
                   concurrent_global (slp 0) g)))"
proof (intro conjI impI)
  show "hvsock_enqueue_accept g l c =
     g\<lparr>sks := (sks g)(l := (sks g l)\<lparr>accept_queue := accept_queue (sks g l) @ [c],
                                     sk_ack_backlog := sk_ack_backlog (sks g l) + 1\<rparr>)\<rparr>"
    by (rule enqueue_effect)
next
  assume "accept_queue (sks g l) = []"
  then show "hvsock_dequeue_accept g l = (None, g)" by (rule dequeue_empty)
next
  assume "accept_queue (sks g l) = c # cs"
  then show "hvsock_dequeue_accept g l =
        (Some c, g\<lparr>sks := (sks g)(l := (sks g l)\<lparr>accept_queue := cs,
                                                 sk_ack_backlog := sk_ack_backlog (sks g l) - 1\<rparr>)\<rparr>)"
    by (rule dequeue_head)
next
  assume e: "accept_queue (sks g l) = []"
  have "accept_queue (sks (enqueue_all g l cs) l) = cs @ []"
    by (simp add: enqueue_all_queue e)
  from dequeue_n_fifo[OF this]
  show "fst (dequeue_n (length cs) (enqueue_all g l cs) l) = map Some cs"
    "accept_queue (sks (snd (dequeue_n (length cs) (enqueue_all g l cs) l)) l) = []"
    by simp_all
next
  assume "sk (sockets g sock) = Some l \<and> type (sockets g sock) = SOCK_STREAM \<and>
    sk_state (sks g l) = SS_LISTEN \<and> accept_queue (sks g l) = c # cs \<and> sk_err (sks g l) = 0"
  then show "\<exists>g'. hvsock_accept slp g sock newsock flags = Some (Inr (0, g')) \<and>
            sk (sockets g' newsock) = Some c \<and> state (sockets g' newsock) = SS_CONNECTED \<and>
            sk_socket (sks g' c) = Some newsock \<and> accept_queue (sks g' l) = cs \<and>
            sk_ack_backlog (sks g' l) = sk_ack_backlog (sks g l) - 1"
    using accept_head by blast
next
  assume "sk (sockets g sock) = Some l \<and> type (sockets g sock) = SOCK_STREAM \<and>
    sk_state (sks g l) = SS_LISTEN \<and> accept_queue (sks g l) = [] \<and> sk_err (sks g l) = 0 \<and>
    flags AND O_NONBLOCK \<noteq> 0"
  then show "hvsock_accept slp g sock newsock flags =
        Some (Inr (if signal_pending (slp 0) then - EINTR else - EAGAIN,
                   concurrent_global (slp 0) g))"
    using accept_nonblock by blast
qed

lemma ex_listen_socket:
  "sk (sockets ex_listen_global 20) = Some 10"
  "type (sockets ex_listen_global 20) = SOCK_STREAM"
  "sk (sockets ex_queued_global 20) = Some 10"
  "type (sockets ex_queued_global 20) = SOCK_STREAM"
  by (simp_all add: ex_listen_global_def ex_queued_global_def ex_sockets_def ex_socket_def)

lemma ex_queued_fields:
  "sk_state (sks ex_queued_global 10) = SS_LISTEN"
  "accept_queue (sks ex_queued_global 10) = [11]"
  "sk_err (sks ex_queued_global 10) = 0"
  by (simp_all add: ex_queued_global_def ex_listen_fields)

lemma nonblock_flag: "O_NONBLOCK AND O_NONBLOCK \<noteq> 0"
  by (simp add: O_NONBLOCK_def)

text \<open>
  C7 as stated fails: a non-blocking accept on a listener with an empty queue and no error
  returns \<^verbatim>\<open>-EINTR\<close>, not \<^verbatim>\<open>-EAGAIN\<close>, when a signal is pending; the code tests
  \<^verbatim>\<open>signal_pending(current)\<close> before it tests the timeout.
\<close>

theorem hvsock_accept_queue_counterexample:
  "sk (sockets ex_listen_global 20) = Some 10 \<and>
   type (sockets ex_listen_global 20) = SOCK_STREAM \<and>
   sk_state (sks ex_listen_global 10) = SS_LISTEN \<and>
   accept_queue (sks ex_listen_global 10) = [] \<and>
   sk_err (sks ex_listen_global 10) = 0 \<and>
   O_NONBLOCK AND O_NONBLOCK \<noteq> 0 \<and>
   signal_pending (ex_signal_sleep 0) \<and>
   hvsock_accept ex_signal_sleep ex_listen_global 20 21 O_NONBLOCK
     = Some (Inr (- EINTR, ex_listen_global)) \<and>
   - EINTR \<noteq> - EAGAIN"
proof -
  have pre: "sk (sockets ex_listen_global 20) = Some 10"
    "type (sockets ex_listen_global 20) = SOCK_STREAM"
    "sk_state (sks ex_listen_global 10) = SS_LISTEN"
    "accept_queue (sks ex_listen_global 10) = []"
    "sk_err (sks ex_listen_global 10) = 0"
    by (simp_all add: ex_listen_socket ex_listen_fields)
  have s: "signal_pending (ex_signal_sleep 0)" "concurrent_global (ex_signal_sleep 0) = (\<lambda>g. g)"
    by (simp_all add: ex_signal_sleep_def)
  have "hvsock_accept ex_signal_sleep ex_listen_global 20 21 O_NONBLOCK
          = Some (Inr (- EINTR, ex_listen_global))"
    using accept_nonblock[OF pre nonblock_flag, of ex_signal_sleep 21] s by simp
  with pre s nonblock_flag show ?thesis
    by (simp add: EINTR_def EAGAIN_def)
qed

theorem hvsock_accept_queue_spec_witness:
  "hvsock_dequeue_accept ex_listen_global 10 = (None, ex_listen_global) \<and>
   fst (dequeue_n (length [11, 12 :: nat]) (enqueue_all ex_listen_global 10 [11, 12]) 10)
     = [Some 11, Some 12] \<and>
   hvsock_accept ex_quiet_sleep ex_listen_global 20 21 O_NONBLOCK
     = Some (Inr (- EAGAIN, ex_listen_global)) \<and>
   hvsock_accept ex_signal_sleep ex_listen_global 20 21 O_NONBLOCK
     = Some (Inr (- EINTR, ex_listen_global)) \<and>
   fst (hvsock_dequeue_accept ex_queued_global 10) = Some 11 \<and>
   (\<exists>g'. hvsock_accept ex_quiet_sleep ex_queued_global 20 21 0 = Some (Inr (0, g')) \<and>
         sk (sockets g' 21) = Some 11 \<and> accept_queue (sks g' 10) = [])"
proof -
  note spec = hvsock_accept_queue_spec
  have e: "accept_queue (sks ex_listen_global 10) = []"
    by (simp add: ex_listen_fields)
  have pre: "sk (sockets ex_listen_global 20) = Some 10 \<and>
    type (sockets ex_listen_global 20) = SOCK_STREAM \<and>
    sk_state (sks ex_listen_global 10) = SS_LISTEN \<and>
    accept_queue (sks ex_listen_global 10) = [] \<and> sk_err (sks ex_listen_global 10) = 0 \<and>
    O_NONBLOCK AND O_NONBLOCK \<noteq> 0"
    using nonblock_flag by (simp add: ex_listen_socket ex_listen_fields)
  have q: "accept_queue (sks ex_queued_global 10) = 11 # []"
    by (simp add: ex_queued_fields)
  have pre': "sk (sockets ex_queued_global 20) = Some 10 \<and>
    type (sockets ex_queued_global 20) = SOCK_STREAM \<and>
    sk_state (sks ex_queued_global 10) = SS_LISTEN \<and>
    accept_queue (sks ex_queued_global 10) = 11 # [] \<and> sk_err (sks ex_queued_global 10) = 0"
    by (simp add: ex_listen_socket ex_queued_fields)
  have a1: "hvsock_dequeue_accept ex_listen_global 10 = (None, ex_listen_global)"
    using spec[where g = ex_listen_global and l = 10 and c = 11 and cs = "[11, 12]" and sock = 20
        and newsock = 21 and flags = O_NONBLOCK and slp = ex_quiet_sleep] e
    by blast
  have a2: "fst (dequeue_n (length [11, 12 :: nat]) (enqueue_all ex_listen_global 10 [11, 12]) 10)
     = map Some [11, 12]"
    using spec[where g = ex_listen_global and l = 10 and c = 11 and cs = "[11, 12]" and sock = 20
        and newsock = 21 and flags = O_NONBLOCK and slp = ex_quiet_sleep] e
    by blast
  have a3: "hvsock_accept ex_quiet_sleep ex_listen_global 20 21 O_NONBLOCK =
        Some (Inr (if signal_pending (ex_quiet_sleep 0) then - EINTR else - EAGAIN,
                   concurrent_global (ex_quiet_sleep 0) ex_listen_global))"
    using spec[where g = ex_listen_global and l = 10 and c = 11 and cs = "[11, 12]" and sock = 20
        and newsock = 21 and flags = O_NONBLOCK and slp = ex_quiet_sleep] pre
    by blast
  have b: "hvsock_accept ex_signal_sleep ex_listen_global 20 21 O_NONBLOCK =
        Some (Inr (if signal_pending (ex_signal_sleep 0) then - EINTR else - EAGAIN,
                   concurrent_global (ex_signal_sleep 0) ex_listen_global))"
    using spec[where g = ex_listen_global and l = 10 and c = 11 and cs = "[]" and sock = 20
        and newsock = 21 and flags = O_NONBLOCK and slp = ex_signal_sleep] pre
    by blast
  have c1: "hvsock_dequeue_accept ex_queued_global 10 =
        (Some 11, ex_queued_global\<lparr>sks := (sks ex_queued_global)
           (10 := (sks ex_queued_global 10)\<lparr>accept_queue := [],
                      sk_ack_backlog := sk_ack_backlog (sks ex_queued_global 10) - 1\<rparr>)\<rparr>)"
    using spec[where g = ex_queued_global and l = 10 and c = 11 and cs = "[]" and sock = 20
        and newsock = 21 and flags = 0 and slp = ex_quiet_sleep] q
    by blast
  have c2: "\<exists>g'. hvsock_accept ex_quiet_sleep ex_queued_global 20 21 0 = Some (Inr (0, g')) \<and>
            sk (sockets g' 21) = Some 11 \<and> state (sockets g' 21) = SS_CONNECTED \<and>
            sk_socket (sks g' 11) = Some 21 \<and> accept_queue (sks g' 10) = [] \<and>
            sk_ack_backlog (sks g' 10) = sk_ack_backlog (sks ex_queued_global 10) - 1"
    using spec[where g = ex_queued_global and l = 10 and c = 11 and cs = "[]" and sock = 20
        and newsock = 21 and flags = 0 and slp = ex_quiet_sleep] pre'
    by blast
  from a1 a2 a3 b c1 c2 show ?thesis
    by (auto simp: ex_quiet_sleep_def ex_signal_sleep_def)
qed

section \<open>Send: the checks before the loop\<close>

text \<open>
  C9, as the code has it. \<^verbatim>\<open>hvsock_sendmsg\<close> tests \<^verbatim>\<open>len == 0\<close> first, then the flags of the
  message, then \<^verbatim>\<open>msg_namelen\<close>. For every send call of non-zero length that supplies a
  destination address (\<^verbatim>\<open>msg_namelen\<close> is not zero) the call returns \<^verbatim>\<open>-EOPNOTSUPP\<close>, whatever
  the connection state and the shutdown bits of the sock are, with nothing polled, nothing
  sent and the sock unchanged. A send call of length zero returns \<^verbatim>\<open>-EINVAL\<close>, with or
  without a destination address.
\<close>

theorem hvsock_sendmsg_destination_spec:
  "(len \<noteq> 0 \<and> msg_namelen msg \<noteq> 0 \<longrightarrow>
      hvsock_sendmsg env s msg len = Some ((send_entry s len)\<lparr>ret := - EOPNOTSUPP\<rparr>)) \<and>
   (len = 0 \<longrightarrow> hvsock_sendmsg env s msg len = Some ((send_entry s len)\<lparr>ret := - EINVAL\<rparr>))"
  by (simp add: hvsock_sendmsg_def send_entry_def send_out_def EOPNOTSUPP_def Let_def)

text \<open>
  C9 as stated fails: a send call of length zero that supplies a destination address
  returns \<^verbatim>\<open>-EINVAL\<close>, not \<^verbatim>\<open>-EOPNOTSUPP\<close>.
\<close>

theorem hvsock_sendmsg_destination_counterexample:
  "msg_namelen ex_named_msg \<noteq> 0 \<and>
   hvsock_sendmsg ex_send_env ex_child ex_named_msg 0
     = Some ((send_entry ex_child 0)\<lparr>ret := - EINVAL\<rparr>) \<and>
   - EINVAL \<noteq> - EOPNOTSUPP"
  by (simp add: hvsock_sendmsg_def send_entry_def ex_named_msg_def EINVAL_def EOPNOTSUPP_def Let_def)

theorem hvsock_sendmsg_destination_spec_witness:
  "hvsock_sendmsg ex_send_env ex_child ex_named_msg 3
     = Some ((send_entry ex_child 3)\<lparr>ret := - EOPNOTSUPP\<rparr>) \<and>
   hvsock_sendmsg ex_send_env ex_child ex_named_msg 0
     = Some ((send_entry ex_child 0)\<lparr>ret := - EINVAL\<rparr>)"
  using hvsock_sendmsg_destination_spec[of 3 ex_named_msg ex_send_env ex_child]
    hvsock_sendmsg_destination_spec[of 0 ex_named_msg ex_send_env ex_child]
  by (simp add: ex_named_msg_def)

section \<open>Receive: the checks before the loop\<close>

text \<open>
  C2, as the code has it. \<^verbatim>\<open>hvsock_recvmsg\<close> tests the state of the sock first, then the
  flags, then \<^verbatim>\<open>RCV_SHUTDOWN\<close>, then \<^verbatim>\<open>len == 0\<close>. If the state is not \<^verbatim>\<open>SS_CONNECTED\<close> the
  call returns 0 when the done flag is set and \<^verbatim>\<open>-ENOTCONN\<close> otherwise. On a connected sock
  a call with a flag other than \<^verbatim>\<open>MSG_DONTWAIT\<close> returns \<^verbatim>\<open>-EOPNOTSUPP\<close>. On a connected
  sock with no such flag, the call returns 0 if receiving is shut down locally or if the
  request is of length zero. In each of these cases the locals are those of the entry
  but for \<open>ret\<close>: no packet is pulled, nothing is copied, and the sock with its receive
  cursor is unchanged.
\<close>

theorem hvsock_recvmsg_early_spec:
  "(sk_state s \<noteq> SS_CONNECTED \<longrightarrow>
      hvsock_recvmsg env s len flags =
        Some ((recv_entry s len)\<lparr>ret := (if sock_done s then 0 else - ENOTCONN)\<rparr>)) \<and>
   (sk_state s = SS_CONNECTED \<and> flags AND NOT MSG_DONTWAIT \<noteq> 0 \<longrightarrow>
      hvsock_recvmsg env s len flags = Some ((recv_entry s len)\<lparr>ret := - EOPNOTSUPP\<rparr>)) \<and>
   (sk_state s = SS_CONNECTED \<and> flags AND NOT MSG_DONTWAIT = 0 \<and>
    (sk_shutdown s AND RCV_SHUTDOWN \<noteq> 0 \<or> len = 0) \<longrightarrow>
      hvsock_recvmsg env s len flags = Some ((recv_entry s len)\<lparr>ret := 0\<rparr>))"
  by (auto simp: hvsock_recvmsg_def recv_entry_def Let_def)

lemma peek_flag: "MSG_PEEK AND NOT MSG_DONTWAIT \<noteq> 0" "(0::32 word) AND NOT MSG_DONTWAIT = 0"
  by (simp_all add: MSG_PEEK_def MSG_DONTWAIT_def)

lemma ex_child_fields:
  "sk_state ex_child = SS_CONNECTED" "sk_shutdown ex_child = 0" "sock_done ex_child = False"
  "sk_state ex_sock = SS_FREE" "sock_done ex_sock = False" "peer_shutdown ex_child = 0"
  "sk_err ex_child = 0" "recv_data_len ex_child = 0"
  "hvsock_addr_bound (local_addr ex_child)" "hvsock_addr_bound (remote_addr ex_child)"
  "sk_sndtimeo ex_child = MAX_SCHEDULE_TIMEOUT" "sk_rcvtimeo ex_child = MAX_SCHEDULE_TIMEOUT"
  by (simp_all add: ex_child_def ex_sock_def uu_hvsock_create_def hvsock_addr_bound_def
      hvsock_addr_init_def uuid_equals_def SHV_SERVICE_ID_ANY_def NULL_UUID_LE_def)

text \<open>
  C2 as stated fails: on a connected sock whose receiving side is shut down, a request of
  length zero with the flag \<^verbatim>\<open>MSG_PEEK\<close> returns \<^verbatim>\<open>-EOPNOTSUPP\<close>, not 0; the flags are tested
  before the shutdown bit and the length.
\<close>

theorem hvsock_recvmsg_early_counterexample:
  "sk_state (ex_child\<lparr>sk_shutdown := RCV_SHUTDOWN\<rparr>) = SS_CONNECTED \<and>
   sk_shutdown (ex_child\<lparr>sk_shutdown := RCV_SHUTDOWN\<rparr>) AND RCV_SHUTDOWN \<noteq> 0 \<and>
   hvsock_recvmsg ex_recv_env (ex_child\<lparr>sk_shutdown := RCV_SHUTDOWN\<rparr>) 0 MSG_PEEK
     = Some ((recv_entry (ex_child\<lparr>sk_shutdown := RCV_SHUTDOWN\<rparr>) 0)\<lparr>ret := - EOPNOTSUPP\<rparr>) \<and>
   - EOPNOTSUPP \<noteq> (0::int)"
  using peek_flag
  by (simp add: hvsock_recvmsg_def recv_entry_def ex_child_fields RCV_SHUTDOWN_def EOPNOTSUPP_def Let_def)

theorem hvsock_recvmsg_early_spec_witness:
  "hvsock_recvmsg ex_recv_env ex_sock 8 0 = Some ((recv_entry ex_sock 8)\<lparr>ret := - ENOTCONN\<rparr>) \<and>
   hvsock_recvmsg ex_recv_env (ex_sock\<lparr>sock_done := True\<rparr>) 8 0
     = Some ((recv_entry (ex_sock\<lparr>sock_done := True\<rparr>) 8)\<lparr>ret := 0\<rparr>) \<and>
   hvsock_recvmsg ex_recv_env ex_child 8 MSG_PEEK
     = Some ((recv_entry ex_child 8)\<lparr>ret := - EOPNOTSUPP\<rparr>) \<and>
   hvsock_recvmsg ex_recv_env (ex_child\<lparr>sk_shutdown := RCV_SHUTDOWN\<rparr>) 8 0
     = Some ((recv_entry (ex_child\<lparr>sk_shutdown := RCV_SHUTDOWN\<rparr>) 8)\<lparr>ret := 0\<rparr>) \<and>
   hvsock_recvmsg ex_recv_env ex_child 0 0 = Some ((recv_entry ex_child 0)\<lparr>ret := 0\<rparr>)"
  using hvsock_recvmsg_early_spec[of ex_sock ex_recv_env 8 0]
    hvsock_recvmsg_early_spec[of "ex_sock\<lparr>sock_done := True\<rparr>" ex_recv_env 8 0]
    hvsock_recvmsg_early_spec[of ex_child ex_recv_env 8 MSG_PEEK]
    hvsock_recvmsg_early_spec[of "ex_child\<lparr>sk_shutdown := RCV_SHUTDOWN\<rparr>" ex_recv_env 8 0]
    hvsock_recvmsg_early_spec[of ex_child ex_recv_env 0 0]
    peek_flag
  by (simp add: ex_child_fields RCV_SHUTDOWN_def)

section \<open>Send: the return value\<close>

text \<open>
  \<^verbatim>\<open>ret\<close> is an \<^verbatim>\<open>int\<close> and \<^verbatim>\<open>total_written\<close> a \<^verbatim>\<open>size_t\<close>; below \<open>2 ^ 31\<close> the conversion
  keeps the value. The socket layer never passes a longer request.
\<close>

lemma int_of_size_t_small: "n < 2 ^ 31 \<Longrightarrow> int_of_size_t n = int n"
proof -
  assume "n < 2 ^ 31"
  then have "int n < 2 ^ 31" by (metis of_nat_less_iff of_nat_numeral of_nat_power)
  then have "signed_take_bit 31 (int n) = int n"
    by (intro signed_take_bit_int_eq_self) simp_all
  then show ?thesis
    by (simp add: int_of_size_t_def signed_of_nat)
qed

lemma send_wait_inv:
  "send_wait env v = Some r \<Longrightarrow>
     send_inv len v \<longrightarrow> send_inv len (case r of Inl a \<Rightarrow> a | Inr a \<Rightarrow> a)"
proof (rule send_wait.raw_induct
    [where P = "\<lambda>env v r. send_inv len v \<longrightarrow> send_inv len (case r of Inl a \<Rightarrow> a | Inr a \<Rightarrow> a)"])
  fix f :: "send_env \<Rightarrow> send_locals \<Rightarrow> (send_locals + send_locals) option"
    and env :: send_env and v :: send_locals and r
  assume IH: "\<And>env v r. f env v = Some r \<Longrightarrow>
      send_inv len v \<longrightarrow> send_inv len (case r of Inl a \<Rightarrow> a | Inr a \<Rightarrow> a)"
  assume step: "(let can_write = can_write_at env (polls v);
          v1 = v\<lparr>polls := Suc (polls v)\<rparr>
      in if can_write \<or> sk_err (hvsk v1) \<noteq> 0 \<or>
            sk_shutdown (hvsk v1) AND SEND_SHUTDOWN \<noteq> 0 \<or>
            peer_shutdown (hvsk v1) AND RCV_SHUTDOWN \<noteq> 0
         then Some (Inr v1)
         else if timeout v1 = 0 then Some (Inl (v1\<lparr>ret := - EAGAIN\<rparr>))
         else
           let sl = send_sleep_at env (sleeps v1);
               v2 = v1\<lparr>timeout := schedule_timeout (timeout v1) (elapsed sl),
                       hvsk := concurrent sl (hvsk v1),
                       sleeps := Suc (sleeps v1)\<rparr>
           in if signal_pending sl then Some (Inl (v2\<lparr>ret := sock_intr_errno (timeout v2)\<rparr>))
              else if timeout v2 = 0 then Some (Inl (v2\<lparr>ret := - EAGAIN\<rparr>))
              else f env v2) = Some r"
  show "send_inv len v \<longrightarrow> send_inv len (case r of Inl a \<Rightarrow> a | Inr a \<Rightarrow> a)"
  proof
    assume inv: "send_inv len v"
    let ?v2 = "v\<lparr>polls := Suc (polls v),
                  timeout := schedule_timeout (timeout v) (elapsed (send_sleep_at env (sleeps v))),
                  hvsk := concurrent (send_sleep_at env (sleeps v)) (hvsk v),
                  sleeps := Suc (sleeps v)\<rparr>"
    have inv2: "send_inv len ?v2" using inv by (simp add: send_inv_def)
    from step consider
        (stop) a where "r = Inl a \<or> r = Inr a" "send_inv len a"
      | (again) "f env ?v2 = Some r"
      using inv by (auto simp: Let_def send_inv_def split: if_splits)
    then show "send_inv len (case r of Inl a \<Rightarrow> a | Inr a \<Rightarrow> a)"
    proof cases
      case stop
      then show ?thesis by auto
    next
      case again
      from IH[OF again] inv2 show ?thesis by simp
    qed
  qed
qed

lemma send_chunks_inv:
  "send_inv len v \<Longrightarrow>
     (case send_chunks env msg v of
        Inl a \<Rightarrow> send_inv len a
      | Inr a \<Rightarrow> send_inv len a \<and> total_to_write a = 0)"
proof (induction "total_to_write v" arbitrary: v rule: less_induct)
  case less
  let ?to_write = "min HVSOCK_SND_BUF_SZ (total_to_write v)"
  let ?v1 = "v\<lparr>chunks := Suc (chunks v), ret := memcpy_from_msg_ret env (chunks v)\<rparr>"
  let ?s1 = "(hvsk ?v1)\<lparr>send_buf := take ?to_write (drop (total_written ?v1) (msg_iov msg))\<rparr>"
  let ?s2 = "?s1\<lparr>send_pkt_type := 1, send_data_size := ?to_write\<rparr>"
  let ?pkt = "\<lparr>pkt_type = send_pkt_type ?s2, data_size = send_data_size ?s2, payload = send_buf ?s2\<rparr>"
  let ?v2 = "?v1\<lparr>ret := vmbus_sendpacket_ret env (chunks v), hvsk := ?s2\<rparr>"
  let ?v3 = "?v2\<lparr>sent := sent ?v2 @ [?pkt],
                  total_written := total_written ?v2 + ?to_write,
                  total_to_write := total_to_write ?v2 - ?to_write\<rparr>"
  have inv3: "send_inv len ?v3" using less.prems by (simp add: send_inv_def)
  show ?case
  proof (cases "memcpy_from_msg_ret env (chunks v) = 0")
    case False
    then show ?thesis using less.prems
      by (subst send_chunks.simps) (simp add: Let_def send_inv_def)
  next
    case m: True
    show ?thesis
    proof (cases "vmbus_sendpacket_ret env (chunks v) = 0")
      case False
      then show ?thesis using less.prems m
        by (subst send_chunks.simps) (simp add: Let_def send_inv_def hvsock_send_data_def)
    next
      case p: True
      show ?thesis
      proof (cases "total_to_write ?v3 > 0")
        case False
        then show ?thesis using inv3 m p
          by (subst send_chunks.simps) (simp add: Let_def hvsock_send_data_def)
      next
        case True
        then have lt: "total_to_write ?v3 < total_to_write v"
          by (simp add: HVSOCK_SND_BUF_SZ_def)
        from True have big: "HVSOCK_SND_BUF_SZ < total_to_write v"
          by (simp add: min_def split: if_splits)
        have eq: "send_chunks env msg v = send_chunks env msg ?v3"
          using m p big by (subst send_chunks.simps) (simp add: Let_def hvsock_send_data_def)
        show ?thesis unfolding eq by (rule less.hyps[OF lt inv3])
      qed
    qed
  qed
qed

lemma send_loop_inv:
  "send_loop env msg v = Some v' \<Longrightarrow> send_inv len v \<longrightarrow> send_inv len v'"
proof (rule send_loop.raw_induct[where P = "\<lambda>env msg v v'. send_inv len v \<longrightarrow> send_inv len v'"])
  fix f :: "send_env \<Rightarrow> msghdr \<Rightarrow> send_locals \<Rightarrow> send_locals option"
    and env :: send_env and msg :: msghdr and v v' :: send_locals
  assume IH: "\<And>env msg v v'. f env msg v = Some v' \<Longrightarrow> send_inv len v \<longrightarrow> send_inv len v'"
  assume step: "(if total_to_write v > 0 then
        (case send_wait env v of
           None \<Rightarrow> None
         | Some (Inl v1) \<Rightarrow> Some v1
         | Some (Inr v1) \<Rightarrow>
             if sk_err (hvsk v1) \<noteq> 0 then Some (v1\<lparr>ret := - sk_err (hvsk v1)\<rparr>)
             else if sk_shutdown (hvsk v1) AND SEND_SHUTDOWN \<noteq> 0 \<or>
                     peer_shutdown (hvsk v1) AND RCV_SHUTDOWN \<noteq> 0
             then Some (v1\<lparr>ret := - EPIPE\<rparr>)
             else
               (case send_chunks env msg v1 of
                  Inl v2 \<Rightarrow> Some v2
                | Inr v2 \<Rightarrow> f env msg v2))
      else Some v) = Some v'"
  show "send_inv len v \<longrightarrow> send_inv len v'"
  proof
    assume inv: "send_inv len v"
    show "send_inv len v'"
    proof (cases "total_to_write v > 0")
      case False
      with step inv show ?thesis by simp
    next
      case True
      with step obtain r where w: "send_wait env v = Some r"
        by (auto split: option.splits)
      from send_wait_inv[OF w, of len] inv
      have invr: "send_inv len (case r of Inl a \<Rightarrow> a | Inr a \<Rightarrow> a)" by simp
      show ?thesis
      proof (cases r)
        case (Inl v1)
        with step True w invr show ?thesis by simp
      next
        case (Inr v1)
        with invr have inv1: "send_inv len v1" by simp
        have inv1r: "send_inv len (v1\<lparr>ret := x\<rparr>)" for x
          using inv1 by (simp add: send_inv_def)
        note c = send_chunks_inv[OF inv1, of env msg]
        from step True w Inr consider
            (err) x where "v' = v1\<lparr>ret := x\<rparr>"
          | (fail) "send_chunks env msg v1 = Inl v'"
          | (more) v2 where "send_chunks env msg v1 = Inr v2" "f env msg v2 = Some v'"
          by (auto split: if_splits sum.splits)
        then show ?thesis
        proof cases
          case err
          then show ?thesis using inv1r by simp
        next
          case fail
          with c show ?thesis by simp
        next
          case more
          with c have "send_inv len v2" by simp
          with IH[OF more(2)] show ?thesis by simp
        qed
      qed
    qed
  qed
qed

lemma send_chunks_ends:
  "send_chunks env msg v = Inr a \<Longrightarrow> total_to_write a = 0"
proof (induction "total_to_write v" arbitrary: v rule: less_induct)
  case less
  let ?to_write = "min HVSOCK_SND_BUF_SZ (total_to_write v)"
  let ?v1 = "v\<lparr>chunks := Suc (chunks v), ret := memcpy_from_msg_ret env (chunks v)\<rparr>"
  let ?s1 = "(hvsk ?v1)\<lparr>send_buf := take ?to_write (drop (total_written ?v1) (msg_iov msg))\<rparr>"
  let ?s2 = "?s1\<lparr>send_pkt_type := 1, send_data_size := ?to_write\<rparr>"
  let ?pkt = "\<lparr>pkt_type = send_pkt_type ?s2, data_size = send_data_size ?s2, payload = send_buf ?s2\<rparr>"
  let ?v2 = "?v1\<lparr>ret := vmbus_sendpacket_ret env (chunks v), hvsk := ?s2\<rparr>"
  let ?v3 = "?v2\<lparr>sent := sent ?v2 @ [?pkt],
                  total_written := total_written ?v2 + ?to_write,
                  total_to_write := total_to_write ?v2 - ?to_write\<rparr>"
  show ?case
  proof (cases "memcpy_from_msg_ret env (chunks v) = 0 \<and> vmbus_sendpacket_ret env (chunks v) = 0")
    case False
    then have "\<exists>b. send_chunks env msg v = Inl b"
      by (subst send_chunks.simps) (auto simp: Let_def hvsock_send_data_def)
    with less.prems show ?thesis by simp
  next
    case mp: True
    show ?thesis
    proof (cases "total_to_write ?v3 > 0")
      case False
      with mp have "send_chunks env msg v = Inr ?v3"
        by (subst send_chunks.simps) (simp add: Let_def hvsock_send_data_def)
      with less.prems False show ?thesis by auto
    next
      case True
      then have lt: "total_to_write ?v3 < total_to_write v"
        by (simp add: HVSOCK_SND_BUF_SZ_def)
      from True have big: "HVSOCK_SND_BUF_SZ < total_to_write v"
        by (simp add: min_def split: if_splits)
      have eq: "send_chunks env msg v = send_chunks env msg ?v3"
        using mp big by (subst send_chunks.simps) (simp add: Let_def hvsock_send_data_def)
      from less.prems show ?thesis unfolding eq by (rule less.hyps[OF lt])
    qed
  qed
qed

lemma send_wait_returns:
  "timeout v = 0 \<or> can_write_at env (polls v) \<Longrightarrow> \<exists>r. send_wait env v = Some r"
  by (subst send_wait.simps) (auto simp: Let_def)

lemma send_loop_finished:
  "total_to_write v = 0 \<Longrightarrow> send_loop env msg v = Some v"
  by (subst send_loop.simps) simp

lemma send_loop_returns:
  assumes "timeout v = 0 \<or> can_write_at env (polls v)"
  shows "\<exists>v'. send_loop env msg v = Some v'"
proof (cases "total_to_write v > 0")
  case False
  then show ?thesis by (simp add: send_loop_finished)
next
  case True
  from send_wait_returns[OF assms] obtain r where w: "send_wait env v = Some r" by blast
  show ?thesis
  proof (cases r)
    case (Inl v1)
    with True w show ?thesis by (subst send_loop.simps) simp
  next
    case (Inr v1)
    show ?thesis
    proof (cases "send_chunks env msg v1")
      case (Inl v2)
      with True w Inr show ?thesis by (subst send_loop.simps) simp
    next
      case c: (Inr v2)
      then have "send_loop env msg v2 = Some v2"
        by (intro send_loop_finished send_chunks_ends)
      with True w Inr c show ?thesis by (subst send_loop.simps) simp
    qed
  qed
qed

lemma send_inv_ret: "send_inv len (v\<lparr>ret := r\<rparr>) = send_inv len v"
  by (simp add: send_inv_def)

lemma send_return_value:
  assumes inv: "send_inv len v" and len: "len < 2 ^ 31"
  shows "(0 < total_written (send_out (send_out_wait v))
            \<longrightarrow> ret (send_out (send_out_wait v)) = int (total_written (send_out (send_out_wait v)))) \<and>
         (ret (send_out (send_out_wait v)) < 0 \<longrightarrow> total_written (send_out (send_out_wait v)) = 0) \<and>
         ret (send_out (send_out_wait v)) \<noteq> 0 \<and>
         send_inv len (send_out (send_out_wait v))"
proof (cases "total_written v > 0")
  case True
  from inv have "total_written v \<le> len" by (simp add: send_inv_def)
  with len have "total_written v < 2 ^ 31" by simp
  then have c: "int_of_size_t (total_written v) = int (total_written v)"
    by (rule int_of_size_t_small)
  from True have "send_out (send_out_wait v) = v\<lparr>ret := int (total_written v)\<rparr>"
    by (simp add: send_out_def send_out_wait_def c)
  then show ?thesis using True inv by (simp add: send_inv_ret)
next
  case False
  then have "send_out (send_out_wait v) = (if ret v = 0 then v\<lparr>ret := - EIO\<rparr> else v)"
    by (simp add: send_out_def send_out_wait_def)
  then show ?thesis using False inv by (simp add: send_inv_ret EIO_def)
qed

lemma send_return_early:
  assumes "r \<noteq> 0"
  shows "send_out ((send_entry s len)\<lparr>ret := r\<rparr>) = (send_entry s len)\<lparr>ret := r\<rparr>"
  using assms by (simp add: send_out_def)

lemma sendmsg_cases:
  assumes res: "hvsock_sendmsg env s msg len = Some v"
  shows "(\<exists>r. r \<noteq> 0 \<and> v = (send_entry s len)\<lparr>ret := r\<rparr>) \<or>
         (\<exists>vl. send_loop env msg
                 ((send_entry s len)\<lparr>timeout := sock_sndtimeo s (msg_flags msg AND MSG_DONTWAIT \<noteq> 0)\<rparr>)
                 = Some vl \<and> v = send_out (send_out_wait vl))"
proof -
  let ?A = "len = 0"
  let ?B = "msg_flags msg AND NOT MSG_DONTWAIT \<noteq> 0"
  let ?C = "msg_namelen msg \<noteq> 0"
  let ?D = "sk_shutdown s AND SEND_SHUTDOWN \<noteq> 0 \<or> peer_shutdown s AND RCV_SHUTDOWN \<noteq> 0"
  let ?E = "sk_state s \<noteq> SS_CONNECTED \<or> \<not> hvsock_addr_bound (local_addr s)"
  let ?F = "\<not> hvsock_addr_bound (remote_addr s)"
  consider (a) ?A | (b) "\<not> ?A" ?B | (c) "\<not> ?A" "\<not> ?B" ?C | (d) "\<not> ?A" "\<not> ?B" "\<not> ?C" ?D
    | (e) "\<not> ?A" "\<not> ?B" "\<not> ?C" "\<not> ?D" ?E | (f) "\<not> ?A" "\<not> ?B" "\<not> ?C" "\<not> ?D" "\<not> ?E" ?F
    | (g) "\<not> ?A" "\<not> ?B" "\<not> ?C" "\<not> ?D" "\<not> ?E" "\<not> ?F"
    by blast
  then show ?thesis
  proof cases
    case a
    with res have "v = (send_entry s len)\<lparr>ret := - EINVAL\<rparr>"
      by (simp add: hvsock_sendmsg_def send_entry_def Let_def)
    then show ?thesis by (intro disjI1 exI[of _ "- EINVAL"]) (simp add: EINVAL_def)
  next
    case b
    with res have "v = (send_entry s len)\<lparr>ret := - EOPNOTSUPP\<rparr>"
      by (simp add: hvsock_sendmsg_def send_entry_def Let_def)
    then show ?thesis by (intro disjI1 exI[of _ "- EOPNOTSUPP"]) (simp add: EOPNOTSUPP_def)
  next
    case c
    with res have "v = (send_entry s len)\<lparr>ret := - EOPNOTSUPP\<rparr>"
      by (simp add: hvsock_sendmsg_def send_entry_def Let_def send_out_def EOPNOTSUPP_def)
    then show ?thesis by (intro disjI1 exI[of _ "- EOPNOTSUPP"]) (simp add: EOPNOTSUPP_def)
  next
    case d
    with res have "v = (send_entry s len)\<lparr>ret := - EPIPE\<rparr>"
      by (simp add: hvsock_sendmsg_def send_entry_def Let_def send_out_def EPIPE_def)
    then show ?thesis by (intro disjI1 exI[of _ "- EPIPE"]) (simp add: EPIPE_def)
  next
    case e
    with res have "v = (send_entry s len)\<lparr>ret := - ENOTCONN\<rparr>"
      by (simp add: hvsock_sendmsg_def send_entry_def Let_def send_out_def ENOTCONN_def)
    then show ?thesis by (intro disjI1 exI[of _ "- ENOTCONN"]) (simp add: ENOTCONN_def)
  next
    case f
    with res have "v = (send_entry s len)\<lparr>ret := - EDESTADDRREQ\<rparr>"
      by (simp add: hvsock_sendmsg_def send_entry_def Let_def send_out_def EDESTADDRREQ_def)
    then show ?thesis by (intro disjI1 exI[of _ "- EDESTADDRREQ"]) (simp add: EDESTADDRREQ_def)
  next
    case g
    let ?start = "(send_entry s len)\<lparr>timeout := sock_sndtimeo s (msg_flags msg AND MSG_DONTWAIT \<noteq> 0)\<rparr>"
    from res g have m: "map_option send_out (map_option send_out_wait (send_loop env msg ?start)) = Some v"
      by (simp add: hvsock_sendmsg_def send_entry_def Let_def)
    then obtain vl where "send_loop env msg ?start = Some vl" "v = send_out (send_out_wait vl)"
      by (cases "send_loop env msg ?start") auto
    then show ?thesis by blast
  qed
qed

lemma sendmsg_return_value:
  assumes res: "hvsock_sendmsg env s msg len = Some v" and len: "len < 2 ^ 31"
  shows "(0 < total_written v \<longrightarrow> ret v = int (total_written v)) \<and>
      (ret v < 0 \<longrightarrow> total_written v = 0) \<and> ret v \<noteq> 0 \<and> send_inv len v"
proof -
  let ?start = "(send_entry s len)\<lparr>timeout := sock_sndtimeo s (msg_flags msg AND MSG_DONTWAIT \<noteq> 0)\<rparr>"
  from sendmsg_cases[OF res] consider
      (early) r where "r \<noteq> 0" "v = (send_entry s len)\<lparr>ret := r\<rparr>"
    | (loop) vl where "send_loop env msg ?start = Some vl" "v = send_out (send_out_wait vl)"
    by blast
  then show ?thesis
  proof cases
    case early
    then show ?thesis by (simp add: send_entry_def send_inv_def)
  next
    case loop
    have "send_inv len ?start" by (simp add: send_inv_def send_entry_def)
    with send_loop_inv[OF loop(1), of len] have "send_inv len vl" by simp
    from send_return_value[OF this len] show ?thesis unfolding loop(2) .
  qed
qed

lemma sendmsg_returns:
  assumes b: "msg_flags msg AND MSG_DONTWAIT \<noteq> 0 \<or> can_write_at env 0"
  shows "\<exists>v'. hvsock_sendmsg env s msg len = Some v'"
proof -
  let ?start = "(send_entry s len)\<lparr>timeout := sock_sndtimeo s (msg_flags msg AND MSG_DONTWAIT \<noteq> 0)\<rparr>"
  from b have "timeout ?start = 0 \<or> can_write_at env (polls ?start)"
    by (auto simp: sock_sndtimeo_def send_entry_def)
  from send_loop_returns[OF this, of msg] obtain vl where "send_loop env msg ?start = Some vl"
    by blast
  then show "\<exists>v'. hvsock_sendmsg env s msg len = Some v'"
    by (simp add: hvsock_sendmsg_def send_entry_def Let_def)
qed

text \<open>
  C1. For every send call of less than \<open>2 ^ 31\<close> bytes that returns: if at least one byte
  was transferred, the call returns the number of bytes transferred, whatever stopped
  the loop; a negative value is returned only when no byte was transferred; the call
  never returns zero; the bytes transferred are no more than the request and are
  exactly the payloads of the packets sent. A request of length zero is rejected with
  \<^verbatim>\<open>-EINVAL\<close> before anything else. And the call does return, at least when it is
  non-blocking or when the ring buffer has room at the first poll (a blocking call waits
  for as long as the environment keeps it waiting).
\<close>

theorem hvsock_sendmsg_spec:
  "(hvsock_sendmsg env s msg len = Some v \<and> len < 2 ^ 31 \<longrightarrow>
      (0 < total_written v \<longrightarrow> ret v = int (total_written v)) \<and>
      (ret v < 0 \<longrightarrow> total_written v = 0) \<and>
      ret v \<noteq> 0 \<and>
      total_written v \<le> len \<and>
      total_written v = sum_list (map data_size (sent v))) \<and>
   (len = 0 \<longrightarrow> hvsock_sendmsg env s msg len = Some ((send_entry s len)\<lparr>ret := - EINVAL\<rparr>)) \<and>
   (msg_flags msg AND MSG_DONTWAIT \<noteq> 0 \<or> can_write_at env 0 \<longrightarrow>
      (\<exists>v'. hvsock_sendmsg env s msg len = Some v'))"
proof -
  have part1: "(0 < total_written v \<longrightarrow> ret v = int (total_written v)) \<and>
      (ret v < 0 \<longrightarrow> total_written v = 0) \<and>
      ret v \<noteq> 0 \<and>
      total_written v \<le> len \<and>
      total_written v = sum_list (map data_size (sent v))"
    if a: "hvsock_sendmsg env s msg len = Some v \<and> len < 2 ^ 31"
  proof -
    from a have r: "(0 < total_written v \<longrightarrow> ret v = int (total_written v)) \<and>
        (ret v < 0 \<longrightarrow> total_written v = 0) \<and> ret v \<noteq> 0 \<and> send_inv len v"
      using sendmsg_return_value[of env s msg len v] by blast
    then have i: "total_written v + total_to_write v = len"
      "total_written v = sum_list (map data_size (sent v))"
      unfolding send_inv_def by blast+
    from i(1) have "total_written v \<le> len" by linarith
    with r i(2) show ?thesis by blast
  qed
  have part2: "hvsock_sendmsg env s msg len = Some ((send_entry s len)\<lparr>ret := - EINVAL\<rparr>)"
    if "len = 0"
    using that by (simp add: hvsock_sendmsg_def send_entry_def Let_def)
  have part3: "\<exists>v'. hvsock_sendmsg env s msg len = Some v'"
    if "msg_flags msg AND MSG_DONTWAIT \<noteq> 0 \<or> can_write_at env 0"
    using that by (rule sendmsg_returns)
  from part1 part2 part3 show ?thesis by blast
qed

lemma send_chunks_fails:
  assumes "memcpy_from_msg_ret env (chunks v) = 0" and "vmbus_sendpacket_ret env (chunks v) \<noteq> 0"
  shows "\<exists>w. send_chunks env msg v = Inl w \<and> total_written w = total_written v \<and>
             sent w = sent v \<and> total_to_write w = total_to_write v"
  using assms by (subst send_chunks.simps) (simp add: Let_def hvsock_send_data_def)

lemma send_chunks_next:
  assumes m: "memcpy_from_msg_ret env (chunks v) = 0" and p: "vmbus_sendpacket_ret env (chunks v) = 0"
    and big: "HVSOCK_SND_BUF_SZ < total_to_write v"
  shows "\<exists>w. send_chunks env msg v = send_chunks env msg w \<and> chunks w = Suc (chunks v) \<and>
             total_written w = total_written v + HVSOCK_SND_BUF_SZ \<and>
             total_to_write w = total_to_write v - HVSOCK_SND_BUF_SZ \<and>
             map data_size (sent w) = map data_size (sent v) @ [HVSOCK_SND_BUF_SZ]"
proof -
  let ?buf = "take HVSOCK_SND_BUF_SZ (drop (total_written v) (msg_iov msg))"
  let ?w = "v\<lparr>chunks := Suc (chunks v), ret := 0,
             hvsk := (hvsk v)\<lparr>send_buf := ?buf, send_pkt_type := 1,
                              send_data_size := HVSOCK_SND_BUF_SZ\<rparr>,
             sent := sent v @ [\<lparr>pkt_type = 1, data_size = HVSOCK_SND_BUF_SZ, payload = ?buf\<rparr>],
             total_written := total_written v + HVSOCK_SND_BUF_SZ,
             total_to_write := total_to_write v - HVSOCK_SND_BUF_SZ\<rparr>"
  have "send_chunks env msg v = send_chunks env msg ?w"
    using m p big by (subst send_chunks.simps) (simp add: Let_def hvsock_send_data_def)
  then show ?thesis by (intro exI[of _ ?w]) simp
qed

lemma sendmsg_enters_loop:
  assumes "len \<noteq> 0" and "msg_flags msg AND NOT MSG_DONTWAIT = 0" and "msg_namelen msg = 0"
    and "sk_shutdown s AND SEND_SHUTDOWN = 0" and "peer_shutdown s AND RCV_SHUTDOWN = 0"
    and "sk_state s = SS_CONNECTED" and "hvsock_addr_bound (local_addr s)"
    and "hvsock_addr_bound (remote_addr s)"
  shows "hvsock_sendmsg env s msg len =
     map_option (\<lambda>v. send_out (send_out_wait v))
       (send_loop env msg
          ((send_entry s len)\<lparr>timeout := sock_sndtimeo s (msg_flags msg AND MSG_DONTWAIT \<noteq> 0)\<rparr>))"
  using assms
  by (simp add: hvsock_sendmsg_def send_entry_def Let_def option.map_comp comp_def)

lemma ex_send_partial:
  "\<exists>v. hvsock_sendmsg ex_send_env ex_child ex_msg 5000 = Some v \<and>
       total_written v = 4096 \<and> map data_size (sent v) = [4096]"
proof -
  define st where "st = (send_entry ex_child 5000)
      \<lparr>timeout := sock_sndtimeo ex_child (msg_flags ex_msg AND MSG_DONTWAIT \<noteq> 0)\<rparr>"
  define v1 where "v1 = st\<lparr>polls := Suc (polls st)\<rparr>"
  have st: "polls st = 0" "total_to_write st = 5000"
    by (simp_all add: st_def send_entry_def)
  have w: "send_wait ex_send_env st = Some (Inr v1)"
    by (subst send_wait.simps) (simp add: ex_send_env_def Let_def v1_def)
  have v1: "chunks v1 = 0" "total_to_write v1 = 5000" "total_written v1 = 0" "sent v1 = []"
    "sk_err (hvsk v1) = 0" "sk_shutdown (hvsk v1) = 0" "peer_shutdown (hvsk v1) = 0"
    by (simp_all add: v1_def st_def send_entry_def ex_child_fields)
  have e: "memcpy_from_msg_ret ex_send_env j = 0" "vmbus_sendpacket_ret ex_send_env 0 = 0"
    "vmbus_sendpacket_ret ex_send_env (Suc 0) \<noteq> 0" for j
    by (simp_all add: ex_send_env_def EAGAIN_def)
  have "HVSOCK_SND_BUF_SZ < total_to_write v1" by (simp add: v1 HVSOCK_SND_BUF_SZ_def)
  from send_chunks_next[of ex_send_env v1 ex_msg, OF _ _ this] v1 e
  obtain w1 where w1: "send_chunks ex_send_env ex_msg v1 = send_chunks ex_send_env ex_msg w1"
    "chunks w1 = Suc 0" "total_written w1 = 4096" "map data_size (sent w1) = [4096]"
    by (auto simp: HVSOCK_SND_BUF_SZ_def)
  from send_chunks_fails[of ex_send_env w1 ex_msg] w1 e
  obtain w2 where w2: "send_chunks ex_send_env ex_msg w1 = Inl w2" "total_written w2 = 4096"
    "sent w2 = sent w1"
    by auto
  have l: "send_loop ex_send_env ex_msg st = Some w2"
    by (subst send_loop.simps) (simp add: st w w1(1) w2(1) v1)
  have mf: "msg_flags ex_msg = 0" "msg_namelen ex_msg = 0"
    by (simp_all add: ex_msg_def)
  have "hvsock_sendmsg ex_send_env ex_child ex_msg 5000 =
      map_option (\<lambda>v. send_out (send_out_wait v)) (send_loop ex_send_env ex_msg st)"
    unfolding st_def by (rule sendmsg_enters_loop) (simp_all add: mf ex_child_fields)
  then have "hvsock_sendmsg ex_send_env ex_child ex_msg 5000 = Some (send_out (send_out_wait w2))"
    by (simp only: l option.map)
  moreover have "total_written (send_out (send_out_wait w2)) = 4096"
    "sent (send_out (send_out_wait w2)) = sent w1"
    using w2 by (simp_all add: send_out_def send_out_wait_def)
  ultimately show ?thesis using w1(4) by simp
qed

lemma ex_send_blocked:
  "\<exists>v. hvsock_sendmsg ex_blocked_env ex_child (ex_msg\<lparr>msg_flags := MSG_DONTWAIT\<rparr>) 5000 = Some v \<and>
       ret v = - EAGAIN \<and> total_written v = 0"
proof -
  define m where "m = ex_msg\<lparr>msg_flags := MSG_DONTWAIT\<rparr>"
  define st where "st = (send_entry ex_child 5000)
      \<lparr>timeout := sock_sndtimeo ex_child (msg_flags m AND MSG_DONTWAIT \<noteq> 0)\<rparr>"
  define v1 where "v1 = st\<lparr>polls := Suc (polls st), ret := - EAGAIN\<rparr>"
  have m: "msg_flags m = MSG_DONTWAIT" "msg_namelen m = 0"
    by (simp_all add: m_def ex_msg_def)
  have st: "timeout st = 0" "total_to_write st = 5000" "total_written st = 0"
    "sk_err (hvsk st) = 0" "sk_shutdown (hvsk st) = 0" "peer_shutdown (hvsk st) = 0"
    by (simp_all add: st_def m sock_sndtimeo_def MSG_DONTWAIT_def send_entry_def ex_child_fields)
  have w: "send_wait ex_blocked_env st = Some (Inl v1)"
    by (subst send_wait.simps)
      (simp add: ex_blocked_env_def ex_send_env_def Let_def st v1_def)
  have l: "send_loop ex_blocked_env m st = Some v1"
    by (subst send_loop.simps) (simp add: w st)
  have "hvsock_sendmsg ex_blocked_env ex_child m 5000 =
      map_option (\<lambda>v. send_out (send_out_wait v)) (send_loop ex_blocked_env m st)"
    unfolding st_def
    by (rule sendmsg_enters_loop) (simp_all add: m ex_child_fields MSG_DONTWAIT_def)
  then have "hvsock_sendmsg ex_blocked_env ex_child m 5000 = Some (send_out (send_out_wait v1))"
    by (simp only: l option.map)
  moreover have "ret (send_out (send_out_wait v1)) = - EAGAIN"
    "total_written (send_out (send_out_wait v1)) = 0"
    by (simp_all add: send_out_def send_out_wait_def v1_def st EAGAIN_def)
  ultimately show ?thesis unfolding m_def by blast
qed

theorem hvsock_sendmsg_spec_witness:
  "(\<exists>v. hvsock_sendmsg ex_send_env ex_child ex_msg 5000 = Some v \<and>
        ret v = 4096 \<and> total_written v = 4096 \<and> map data_size (sent v) = [4096]) \<and>
   (\<exists>v. hvsock_sendmsg ex_blocked_env ex_child (ex_msg\<lparr>msg_flags := MSG_DONTWAIT\<rparr>) 5000 = Some v \<and>
        ret v = - EAGAIN \<and> total_written v = 0) \<and>
   hvsock_sendmsg ex_send_env ex_child ex_msg 0 = Some ((send_entry ex_child 0)\<lparr>ret := - EINVAL\<rparr>)"
proof -
  note spec = hvsock_sendmsg_spec
  from ex_send_partial obtain v where v: "hvsock_sendmsg ex_send_env ex_child ex_msg 5000 = Some v"
    "total_written v = 4096" "map data_size (sent v) = [4096]"
    by (elim exE conjE) (rule that, assumption+)
  have small: "(5000::nat) < 2 ^ 31" by simp
  have h1: "hvsock_sendmsg ex_send_env ex_child ex_msg 5000 = Some v \<and> (5000::nat) < 2 ^ 31"
    using v(1) small by (rule conjI)
  note r1 = spec[where env = ex_send_env and s = ex_child and msg = ex_msg and len = 5000 and v = v,
      THEN conjunct1, THEN mp, OF h1, THEN conjunct1]
  have pos: "0 < total_written v" by (simp add: v(2))
  from r1 pos have "ret v = int (total_written v)" by (rule mp)
  hence rv: "ret v = 4096" by (simp add: v(2))
  have a: "\<exists>v. hvsock_sendmsg ex_send_env ex_child ex_msg 5000 = Some v \<and>
        ret v = 4096 \<and> total_written v = 4096 \<and> map data_size (sent v) = [4096]"
    by (rule exI[of _ v]) (intro conjI v rv)
  have nb: "msg_flags (ex_msg\<lparr>msg_flags := MSG_DONTWAIT\<rparr>) AND MSG_DONTWAIT \<noteq> 0"
    by (simp add: MSG_DONTWAIT_def)
  note r3 = spec[where env = ex_blocked_env and s = ex_child and msg = "ex_msg\<lparr>msg_flags := MSG_DONTWAIT\<rparr>"
      and len = 5000 and v = v, THEN conjunct2, THEN conjunct2, THEN mp, OF disjI1, OF nb]
  from r3 obtain u where u: "hvsock_sendmsg ex_blocked_env ex_child (ex_msg\<lparr>msg_flags := MSG_DONTWAIT\<rparr>) 5000 = Some u"
    by (elim exE) (rule that)
  from ex_send_blocked obtain w where w:
    "hvsock_sendmsg ex_blocked_env ex_child (ex_msg\<lparr>msg_flags := MSG_DONTWAIT\<rparr>) 5000 = Some w"
    "ret w = - EAGAIN" "total_written w = 0"
    by (elim exE conjE) (rule that, assumption+)
  from u w(1) have "u = w" by (simp only: option.inject)
  with w have b: "\<exists>v. hvsock_sendmsg ex_blocked_env ex_child (ex_msg\<lparr>msg_flags := MSG_DONTWAIT\<rparr>) 5000 = Some v \<and>
        ret v = - EAGAIN \<and> total_written v = 0"
    using u by (intro exI[of _ u] conjI) simp_all
  have c: "hvsock_sendmsg ex_send_env ex_child ex_msg 0 = Some ((send_entry ex_child 0)\<lparr>ret := - EINVAL\<rparr>)"
    by (rule spec[where env = ex_send_env and s = ex_child and msg = ex_msg and len = 0 and v = v,
      THEN conjunct2, THEN conjunct1, THEN mp, OF refl])
  from a b c show ?thesis by (intro conjI)
qed

end
